theory Spec2Isabelle
  imports Main "HOL-Library.Word" "HOL-Library.Finite_Map"
begin

unbundle bit_operations_syntax

section \<open>Errors\<close>

text \<open>
  Go error values as the two packages build them: \<open>context.Canceled\<close>, an error made
  from a message (\<open>errors.New\<close>, \<open>fmt.Errorf\<close> without \<open>%w\<close>), and an error that wraps
  a cause (\<open>fmt.Errorf\<close> with \<open>%w\<close>; the first component is the formatted message).
\<close>

datatype error = Canceled | New string | Wrapped string error

fun Error :: "error \<Rightarrow> string" where
  "Error Canceled = ''context canceled''"
| "Error (New s) = s"
| "Error (Wrapped s _) = s"

text \<open>\<open>errors.Is(err, context.Canceled)\<close>: walks the chain of wrapped causes.\<close>

fun Is_Canceled :: "error \<Rightarrow> bool" where
  "Is_Canceled Canceled = True"
| "Is_Canceled (New _) = False"
| "Is_Canceled (Wrapped _ e) = Is_Canceled e"

text \<open>\<open>fmt.Errorf(prefix + "%w", err)\<close>.\<close>

definition Errorf_w :: "string \<Rightarrow> error \<Rightarrow> error" where
  "Errorf_w prefix err = Wrapped (prefix @ Error err) err"

section \<open>Package checks: configuration checks\<close>

text \<open>
  \<open>*config.C\<close> is reached only through \<open>GetFields\<close>, the names of the
  configuration's fields in the order the call returns them.
\<close>

record C =
  GetFields :: "string list"

text \<open>\<open>%v\<close> of a \<open>[]string\<close>: the elements separated by one space, in brackets.\<close>

fun join_space :: "string list \<Rightarrow> string" where
  "join_space [] = []"
| "join_space [x] = x"
| "join_space (x # y # ys) = x @ '' '' @ join_space (y # ys)"

definition fmt_v :: "string list \<Rightarrow> string" where
  "fmt_v xs = ''['' @ join_space xs @ '']''"

definition err_mutually_exclusive :: "string \<Rightarrow> string \<Rightarrow> error" where
  "err_mutually_exclusive foundField field =
     New (''field '' @ foundField @ '' and '' @ field @ '' are mutually exclusive'')"

definition err_missing_option :: "string list \<Rightarrow> error" where
  "err_missing_option flds = New (''missing option, select one from '' @ fmt_v flds)"

text \<open>
  The inner loop of \<open>MutuallyExclusiveRequiredFields\<close> over the candidate names, for one
  field of the configuration. \<open>Inl\<close> is the early \<open>return\<close> of the error, \<open>Inr\<close> the value of
  \<open>foundField\<close> after the loop.
\<close>

fun scan_candidates :: "string \<Rightarrow> string list \<Rightarrow> string \<Rightarrow> error + string" where
  "scan_candidates field [] foundField = Inr foundField"
| "scan_candidates field (f # fs) foundField =
     (if field = f then
        (if length foundField = 0 then scan_candidates field fs field
         else Inl (err_mutually_exclusive foundField field))
      else scan_candidates field fs foundField)"

text \<open>The outer loop over \<open>cfg.GetFields()\<close>.\<close>

fun scan_fields :: "string list \<Rightarrow> string list \<Rightarrow> string \<Rightarrow> error + string" where
  "scan_fields [] flds foundField = Inr foundField"
| "scan_fields (field # rest) flds foundField =
     (case scan_candidates field flds foundField of
        Inl e \<Rightarrow> Inl e
      | Inr foundField' \<Rightarrow> scan_fields rest flds foundField')"

text \<open>The returned check; \<open>None\<close> is the \<open>nil\<close> error.\<close>

definition MutuallyExclusiveRequiredFields :: "string list \<Rightarrow> C \<Rightarrow> error option" where
  "MutuallyExclusiveRequiredFields flds cfg =
     (case scan_fields (GetFields cfg) flds [] of
        Inl e \<Rightarrow> Some e
      | Inr foundField \<Rightarrow>
          (if length foundField = 0 then Some (err_missing_option flds) else None))"

section \<open>crypto/sha256 and encoding/hex, as makeTopicID uses them\<close>

type_synonym byte = "8 word"

text \<open>A Go string is its bytes: \<open>[]byte(s)\<close> and \<open>string(b)\<close> convert without loss.\<close>

definition bytes_of :: "string \<Rightarrow> byte list" where
  "bytes_of s = map of_char s"

definition string_of :: "byte list \<Rightarrow> string" where
  "string_of bs = map (\<lambda>b. char_of (unat b)) bs"

text \<open>SHA-256 (FIPS 180-4), the function behind \<open>sha256.New\<close>.\<close>

definition K256 :: "32 word list" where
  "K256 =
     concat
      [[0x428a2f98, 0x71374491, 0xb5c0fbcf, 0xe9b5dba5],
       [0x3956c25b, 0x59f111f1, 0x923f82a4, 0xab1c5ed5],
       [0xd807aa98, 0x12835b01, 0x243185be, 0x550c7dc3],
       [0x72be5d74, 0x80deb1fe, 0x9bdc06a7, 0xc19bf174],
       [0xe49b69c1, 0xefbe4786, 0x0fc19dc6, 0x240ca1cc],
       [0x2de92c6f, 0x4a7484aa, 0x5cb0a9dc, 0x76f988da],
       [0x983e5152, 0xa831c66d, 0xb00327c8, 0xbf597fc7],
       [0xc6e00bf3, 0xd5a79147, 0x06ca6351, 0x14292967],
       [0x27b70a85, 0x2e1b2138, 0x4d2c6dfc, 0x53380d13],
       [0x650a7354, 0x766a0abb, 0x81c2c92e, 0x92722c85],
       [0xa2bfe8a1, 0xa81a664b, 0xc24b8b70, 0xc76c51a3],
       [0xd192e819, 0xd6990624, 0xf40e3585, 0x106aa070],
       [0x19a4c116, 0x1e376c08, 0x2748774c, 0x34b0bcb5],
       [0x391c0cb3, 0x4ed8aa4a, 0x5b9cca4f, 0x682e6ff3],
       [0x748f82ee, 0x78a5636f, 0x84c87814, 0x8cc70208],
       [0x90befffa, 0xa4506ceb, 0xbef9a3f7, 0xc67178f2]]"

type_synonym sha_state =
  "32 word \<times> 32 word \<times> 32 word \<times> 32 word \<times> 32 word \<times> 32 word \<times> 32 word \<times> 32 word"

definition H256 :: sha_state where
  "H256 = (0x6a09e667, 0xbb67ae85, 0x3c6ef372, 0xa54ff53a,
           0x510e527f, 0x9b05688c, 0x1f83d9ab, 0x5be0cd19)"

definition rotr :: "nat \<Rightarrow> 32 word \<Rightarrow> 32 word" where
  "rotr n x = drop_bit n x OR push_bit (32 - n) x"

definition Ch :: "32 word \<Rightarrow> 32 word \<Rightarrow> 32 word \<Rightarrow> 32 word" where
  "Ch x y z = (x AND y) XOR (NOT x AND z)"

definition Maj :: "32 word \<Rightarrow> 32 word \<Rightarrow> 32 word \<Rightarrow> 32 word" where
  "Maj x y z = (x AND y) XOR (x AND z) XOR (y AND z)"

definition Sigma0 :: "32 word \<Rightarrow> 32 word" where
  "Sigma0 x = rotr 2 x XOR rotr 13 x XOR rotr 22 x"

definition Sigma1 :: "32 word \<Rightarrow> 32 word" where
  "Sigma1 x = rotr 6 x XOR rotr 11 x XOR rotr 25 x"

definition sigma0 :: "32 word \<Rightarrow> 32 word" where
  "sigma0 x = rotr 7 x XOR rotr 18 x XOR drop_bit 3 x"

definition sigma1 :: "32 word \<Rightarrow> 32 word" where
  "sigma1 x = rotr 17 x XOR rotr 19 x XOR drop_bit 10 x"

text \<open>The message schedule: \<open>n\<close> further words appended to the words so far.\<close>

fun extend :: "nat \<Rightarrow> 32 word list \<Rightarrow> 32 word list" where
  "extend 0 ws = ws"
| "extend (Suc n) ws =
     (let t = length ws
      in extend n (ws @ [sigma1 (ws ! (t - 2)) + ws ! (t - 7) + sigma0 (ws ! (t - 15)) + ws ! (t - 16)]))"

definition sha_round :: "32 word \<Rightarrow> 32 word \<Rightarrow> sha_state \<Rightarrow> sha_state" where
  "sha_round k w st =
     (case st of (a, b, c, d, e, f, g, h) \<Rightarrow>
        (let t1 = h + Sigma1 e + Ch e f g + k + w;
             t2 = Sigma0 a + Maj a b c
         in (t1 + t2, a, b, c, d + t1, e, f, g)))"

fun sha_rounds :: "32 word list \<Rightarrow> 32 word list \<Rightarrow> sha_state \<Rightarrow> sha_state" where
  "sha_rounds (k # ks) (w # ws) st = sha_rounds ks ws (sha_round k w st)"
| "sha_rounds _ _ st = st"

definition be32 :: "byte list \<Rightarrow> 32 word" where
  "be32 bs = foldl (\<lambda>acc b. push_bit 8 acc OR ucast b) 0 (take 4 bs)"

fun block_words :: "nat \<Rightarrow> byte list \<Rightarrow> 32 word list" where
  "block_words 0 bs = []"
| "block_words (Suc n) bs = be32 bs # block_words n (drop 4 bs)"

definition compress :: "sha_state \<Rightarrow> byte list \<Rightarrow> sha_state" where
  "compress st block =
     (case st of (a, b, c, d, e, f, g, h) \<Rightarrow>
        (case sha_rounds K256 (extend 48 (block_words 16 block)) st of
           (a', b', c', d', e', f', g', h') \<Rightarrow>
             (a + a', b + b', c + c', d + d', e + e', f + f', g + g', h + h')))"

text \<open>Padding: a one bit, zeros up to 56 modulo 64, the bit length as a 64-bit big-endian number.\<close>

definition be64_bytes :: "64 word \<Rightarrow> byte list" where
  "be64_bytes n = map (\<lambda>i. ucast (drop_bit (8 * i) n)) [7, 6, 5, 4, 3, 2, 1, 0]"

definition be32_bytes :: "32 word \<Rightarrow> byte list" where
  "be32_bytes n = map (\<lambda>i. ucast (drop_bit (8 * i) n)) [3, 2, 1, 0]"

definition pad :: "byte list \<Rightarrow> byte list" where
  "pad bs =
     bs @ [0x80] @ replicate ((64 - (length bs + 9) mod 64) mod 64) 0
        @ be64_bytes (of_nat (8 * length bs))"

fun sha_blocks :: "nat \<Rightarrow> sha_state \<Rightarrow> byte list \<Rightarrow> sha_state" where
  "sha_blocks 0 st bs = st"
| "sha_blocks (Suc n) st bs = sha_blocks n (compress st (take 64 bs)) (drop 64 bs)"

definition Sum256 :: "byte list \<Rightarrow> byte list" where
  "Sum256 bs =
     (case sha_blocks (length (pad bs) div 64) H256 (pad bs) of
        (a, b, c, d, e, f, g, h) \<Rightarrow>
          be32_bytes a @ be32_bytes b @ be32_bytes c @ be32_bytes d @
          be32_bytes e @ be32_bytes f @ be32_bytes g @ be32_bytes h)"

text \<open>
  The \<open>hash.Hash\<close> value: the bytes written so far. \<open>Write\<close> appends, \<open>Sum(b)\<close> appends the
  digest of what was written to \<open>b\<close>.
\<close>

type_synonym digest = "byte list"

definition sha256_New :: digest where
  "sha256_New = []"

definition Write :: "digest \<Rightarrow> byte list \<Rightarrow> digest" where
  "Write h p = h @ p"

definition Sum :: "digest \<Rightarrow> byte list \<Rightarrow> byte list" where
  "Sum h b = b @ Sum256 h"

text \<open>\<open>hex.EncodeToString\<close>: two characters of \<open>hextable\<close> for each byte.\<close>

definition hextable :: string where
  "hextable = ''0123456789abcdef''"

definition EncodeToString :: "byte list \<Rightarrow> string" where
  "EncodeToString src =
     concat (map (\<lambda>v. [hextable ! unat (drop_bit 4 v), hextable ! unat (v AND 0x0f)]) src)"

text \<open>
  \<open>makeTopicID\<close>. The slice \<open>prefix[:10]\<close> panics on a string shorter than 10; the encoded
  digest has 64 characters (lemma \<open>length_hex_digest\<close>), so the slice is \<open>take 10\<close>.
\<close>

definition makeTopicID :: "string \<Rightarrow> string \<Rightarrow> string" where
  "makeTopicID project topic =
     (let h = sha256_New;
          h = Write h (bytes_of project);
          h = Write h (bytes_of topic);
          prefix = EncodeToString (Sum h [])
      in take 10 prefix)"

section \<open>Package gcppubsub: messages and events\<close>

text \<open>
  \<open>time.Time\<close>: an instant (nanoseconds since the Unix epoch) and the location it is
  shown in. \<open>UTC\<close> keeps the instant and sets the location.
\<close>

datatype Location = LocUTC | LocLocal | LocNamed string

record Time =
  instant :: int
  location :: Location

definition UTC :: "Time \<Rightarrow> Time" where
  "UTC t = t\<lparr>location := LocUTC\<rparr>"

text \<open>\<open>pubsub.Message\<close>, the fields the input reads.\<close>

record Message =
  ID :: string
  Data :: "byte list"
  Attributes :: "(string, string) fmap"
  PublishTime :: Time

text \<open>
  The values stored in a \<open>mapstr.M\<close> by this input, and the \<open>interface{}\<close> in
  \<open>Event.Private\<close>: the message, or any other value.
\<close>

datatype val =
    Str string
  | Tm Time
  | M "(string, val) fmap"
  | Labels "(string, string) fmap"

datatype priv = Msg Message | NotMsg

text \<open>
  Modelled from the spec: \<open>beat.Event\<close> and its method \<open>SetID\<close> are not in src. The spec
  gives the Event a stable identifier, a timestamp, a field mapping and a back-reference
  to the Message; \<open>SetID\<close> assigns the identifier.
\<close>

record Event =
  Timestamp :: Time
  Fields :: "(string, val) fmap"
  Private :: priv
  EventID :: string

definition SetID :: "string \<Rightarrow> Event \<Rightarrow> Event" where
  "SetID i e = e\<lparr>EventID := i\<rparr>"

text \<open>\<open>makeEvent\<close>; \<open>now\<close> is what \<open>time.Now()\<close> returns.\<close>

definition makeEvent :: "string \<Rightarrow> Message \<Rightarrow> Time \<Rightarrow> Event" where
  "makeEvent topicID msg now =
     (let i = topicID @ ''-'' @ ID msg;
          event = \<lparr>Timestamp = UTC (PublishTime msg),
                   Fields = fmap_of_list
                     [(''event'', M (fmap_of_list [(''id'', Str i), (''created'', Tm (UTC now))])),
                      (''message'', Str (string_of (Data msg)))],
                   Private = Msg msg,
                   EventID = []\<rparr>;
          event = SetID i event
      in if fmdom (Attributes msg) \<noteq> {||}
         then event\<lparr>Fields := fmupd ''labels'' (Labels (Attributes msg)) (Fields event)\<rparr>
         else event)"

text \<open>The field \<open>outer.inner\<close> of an event, as a dotted path reads it.\<close>

definition field2 :: "Event \<Rightarrow> string \<Rightarrow> string \<Rightarrow> val option" where
  "field2 e outer inner =
     (case fmlookup (Fields e) outer of Some (M m) \<Rightarrow> fmlookup m inner | _ \<Rightarrow> None)"

section \<open>Package gcppubsub: the input and its collaborators\<close>

datatype Status = Starting | Configuring | Running | Degraded | Failed | Stopping | Stopped

datatype level = DebugLevel | InfoLevel | WarnLevel | ErrorLevel

type_synonym log_entry = "level \<times> string \<times> error option"

text \<open>The fields of the input's \<open>config\<close> that the modelled functions read.\<close>

record config =
  Type :: string
  ProjectID :: string
  Topic :: string
  Subscription_Name :: string
  Subscription_Create :: bool
  Subscription_NumGoroutines :: int
  Subscription_MaxOutstandingMessages :: int

definition inputName :: string where
  "inputName = ''gcp-pubsub''"

definition oldInputName :: string where
  "oldInputName = ''google-pubsub''"


text \<open>
  Modelled from the spec: \<open>inputMetrics\<close>, \<open>newInputMetrics\<close> and \<open>Close\<close> are not in src.
  The spec lists the acked, failed-ack and nacked counts, the bytes processed and the
  distribution of the processing latency; the counters are unsigned 64-bit, the
  distribution is kept as the values passed to \<open>Update\<close>, oldest first. \<open>Close\<close> releases
  the metrics.
\<close>

record inputMetrics =
  ackedMessageCount :: "64 word"
  failedAckedMessageCount :: "64 word"
  nackedMessageCount :: "64 word"
  bytesProcessedTotal :: "64 word"
  processingTime :: "int list"
  closed :: bool

definition newInputMetrics :: "string \<Rightarrow> inputMetrics" where
  "newInputMetrics i =
     \<lparr>ackedMessageCount = 0, failedAckedMessageCount = 0, nackedMessageCount = 0,
      bytesProcessedTotal = 0, processingTime = [], closed = False\<rparr>"

definition Close :: "inputMetrics \<Rightarrow> inputMetrics" where
  "Close m = m\<lparr>closed := True\<rparr>"

text \<open>
  \<open>time.Since(t).Nanoseconds()\<close> at the instant \<open>now\<close>: the difference, kept within the
  range of a \<open>time.Duration\<close> (a signed 64-bit count of nanoseconds).
\<close>

definition Since :: "int \<Rightarrow> Time \<Rightarrow> int" where
  "Since now t = max (- (2 ^ 63)) (min (2 ^ 63 - 1) (now - instant t))"

text \<open>
  The rate limiter \<open>rate.NewLimiter(rate.Every(retryInterval), 1)\<close> of golang.org/x/time/rate,
  a token bucket of burst 1, full at the start, refilled at one token every \<open>retryInterval\<close>.
  The library computes in float64 how long a reservation has to wait; that arithmetic is
  not modelled. The limiter is kept as the instants it has reserved, oldest first, and
  the delay of a reservation comes from outside. The first reservation of a new limiter
  finds the bucket full and has no delay.
\<close>

record Limiter =
  reserved :: "int list"

definition NewLimiter :: Limiter where
  "NewLimiter = \<lparr>reserved = []\<rparr>"

text \<open>\<open>pubsub.Subscription\<close>: its name and the two receive settings \<open>run\<close> assigns.\<close>

record Subscription =
  Name :: string
  NumGoroutines :: int
  MaxOutstandingMessages :: int

text \<open>
  What the Pub/Sub client answers during one call of \<open>getOrCreateSubscription\<close>: the result
  of \<open>sub.Exists\<close>, and the error of \<open>client.CreateSubscription\<close> (\<open>None\<close>: created).
\<close>

record client =
  Exists :: "error + bool"
  CreateSubscription :: "error option"

datatype ack = Ack | Nack

text \<open>Where the worker goroutine of \<open>Run\<close> stands.\<close>

datatype wpc =
    W_NotStarted
  | W_Started
  | W_Loop
  | W_Wait
  | W_Sleep int
  | W_Client
  | W_Subscribe
  | W_Receive Subscription string
  | W_Classify "error option"
  | W_Defer_Cancel
  | W_Defer_Done
  | W_Defer_Log
  | W_Defer_Status
  | W_Exited

text \<open>Where the goroutine that \<open>NewInput\<close> starts stands, and where a call of \<open>Stop\<close> stands.\<close>

datatype gpc = G_Select | G_Status | G_Cancel | G_Exited

datatype spc = S_NotCalled | S_Wait | S_Close | S_Returned

text \<open>
  The struct \<open>pubsubInput\<close>. The collaborators behind its fields are kept as what they
  have received: \<open>status\<close> the calls of \<open>UpdateStatus\<close>, \<open>logs\<close> the entries logged, \<open>outlet\<close>
  the events \<open>OnEvent\<close> accepted, all oldest first. \<open>inputCtx\<close> and \<open>workerCtx\<close> hold whether
  the cancel function of that context has been called; \<open>workerWg\<close> is the counter of the
  wait group; \<open>metrics = None\<close> is the nil pointer.
\<close>

record pubsubInput =
  config :: config
  status :: "(Status \<times> string) list"
  logs :: "log_entry list"
  outlet :: "Event list"
  inputCtx :: bool
  workerCtx :: bool
  workerOnce :: bool
  workerWg :: nat
  input_id :: string
  metrics :: "inputMetrics option"

text \<open>
  The input together with the goroutines that run its code and the world around it:
  the program points of the worker, of the goroutine of \<open>NewInput\<close> and of each call of
  \<open>Stop\<close>; the limiter \<open>rt\<close> and the cancel function of the current attempt's context
  (\<open>runCtx\<close>), both local to the worker; the clock in nanoseconds; whether the host has
  closed \<open>inputContext.Done\<close>; and, as records of what happened, the instants at which
  attempts began (\<open>attempts\<close>), the \<open>Ack\<close> and \<open>Nack\<close> calls on messages (\<open>acks\<close>), the
  subscriptions created with their topics (\<open>created\<close>), the receivers of the calls of
  \<open>Close\<close> (\<open>closes\<close>), the number of \<open>go\<close> statements of \<open>Run\<close> executed (\<open>spawned\<close>), the
  number of calls of \<open>newInputMetrics\<close> (\<open>metrics_made\<close>), and whether a goroutine has
  panicked.
\<close>

record system = pubsubInput +
  worker :: wpc
  rt :: Limiter
  runCtx :: bool
  watcher :: gpc
  stops :: "nat \<Rightarrow> spc"
  clock :: int
  host_done :: bool
  attempts :: "int list"
  acks :: "(Message \<times> ack) list"
  created :: "(string \<times> string) list"
  closes :: "inputMetrics option list"
  spawned :: nat
  metrics_made :: nat
  panicked :: bool

text \<open>
  \<open>ctx.Err() != nil\<close> for the worker's context, a child of \<open>inputCtx\<close>, and for the context
  of the current attempt, a child of the worker's.
\<close>

definition workerCtx_Err :: "system \<Rightarrow> bool" where
  "workerCtx_Err s = (workerCtx s \<or> inputCtx s)"


definition UpdateStatus :: "Status \<Rightarrow> string \<Rightarrow> system \<Rightarrow> system" where
  "UpdateStatus st detail s = s\<lparr>status := status s @ [(st, detail)]\<rparr>"

definition logger :: "level \<Rightarrow> string \<Rightarrow> error option \<Rightarrow> system \<Rightarrow> system" where
  "logger l m e s = s\<lparr>logs := logs s @ [(l, m, e)]\<rparr>"

definition panic :: "system \<Rightarrow> system" where
  "panic s = s\<lparr>panicked := True\<rparr>"

section \<open>Package gcppubsub: the code of the input\<close>

text \<open>
  \<open>NewInput\<close>. Its arguments are what the calls it makes return: \<open>cfg.Unpack\<close>, \<open>configID\<close>
  and \<open>connector.ConnectWith\<close>; \<open>t\<close> is the clock. On an error it returns the error and the
  status updates made, otherwise the input, with the goroutine that watches
  \<open>inputContext.Done\<close> at its \<open>select\<close>.
\<close>

definition NewInput ::
  "error + config \<Rightarrow> error + string \<Rightarrow> error option \<Rightarrow> int \<Rightarrow>
   (error \<times> (Status \<times> string) list) + system" where
  "NewInput unpacked cid connected t =
     (let stat = [(Starting, []), (Configuring, [])] in
      case unpacked of
        Inl err \<Rightarrow> Inl (err, stat @ [(Failed, ''failed to configure input: '' @ Error err)])
      | Inr conf \<Rightarrow>
         (case cid of
            Inl err \<Rightarrow> Inl (err, stat @ [(Failed, ''failed to get input ID: '' @ Error err)])
          | Inr i \<Rightarrow>
             (case connected of
                Some err \<Rightarrow>
                  Inl (err, stat @
                    [(Failed, ''failed to configure Elasticsearch connection: '' @ Error err)])
              | None \<Rightarrow>
                  Inr \<lparr>config = conf,
                       status = stat,
                       logs =
                         (if Type conf = oldInputName
                          then [(WarnLevel, oldInputName @ '' input name is deprecated, please use ''
                                   @ inputName @ '' instead'', None)]
                          else []) @
                         [(InfoLevel, ''Initialized GCP Pub/Sub input.'', None)],
                       outlet = [],
                       inputCtx = False,
                       workerCtx = False,
                       workerOnce = False,
                       workerWg = 0,
                       input_id = i,
                       metrics = None,
                       worker = W_NotStarted,
                       rt = NewLimiter,
                       runCtx = False,
                       watcher = G_Select,
                       stops = (\<lambda>_. S_NotCalled),
                       clock = t,
                       host_done = False,
                       attempts = [],
                       acks = [],
                       created = [],
                       closes = [],
                       spawned = 0,
                       metrics_made = 0,
                       panicked = False\<rparr>)))"

text \<open>
  The goroutine of \<open>NewInput\<close>: it leaves the \<open>select\<close> once the host has closed
  \<open>inputContext.Done\<close> (or \<open>inputCtx\<close> is cancelled), reports \<open>Stopping\<close>, and its deferred
  call cancels \<open>inputCtx\<close>. \<open>None\<close>: it cannot move.
\<close>

definition watcher_step :: "system \<Rightarrow> system option" where
  "watcher_step s =
     (case watcher s of
        G_Select \<Rightarrow> (if host_done s \<or> inputCtx s then Some (s\<lparr>watcher := G_Status\<rparr>) else None)
      | G_Status \<Rightarrow> Some ((UpdateStatus Stopping [] s)\<lparr>watcher := G_Cancel\<rparr>)
      | G_Cancel \<Rightarrow> Some (s\<lparr>inputCtx := True, watcher := G_Exited\<rparr>)
      | G_Exited \<Rightarrow> None)"

text \<open>
  \<open>Run\<close>: the body under \<open>workerOnce.Do\<close> creates the metrics, adds one to the wait group
  and starts the worker goroutine with the \<open>go\<close> statement; then \<open>Run\<close> returns.
\<close>

definition Run :: "system \<Rightarrow> system" where
  "Run s =
     (if workerOnce s then s
      else s\<lparr>workerOnce := True,
             metrics := Some (newInputMetrics (input_id s)),
             metrics_made := metrics_made s + 1,
             workerWg := workerWg s + 1,
             worker := W_Started,
             spawned := spawned s + 1\<rparr>)"

text \<open>
  \<open>run\<close> begins: \<open>ctx, cancel := context.WithCancel(in.workerCtx)\<close>. The instant is
  recorded as the start of an attempt.
\<close>

definition run_begin :: "system \<Rightarrow> system" where
  "run_begin s = s\<lparr>attempts := attempts s @ [clock s], runCtx := False, worker := W_Client\<rparr>"

text \<open>
  \<open>run\<close> returns \<open>err\<close> to the loop of the worker: the deferred \<open>client.Close()\<close> and
  \<open>cancel()\<close> run.
\<close>

definition run_return :: "error option \<Rightarrow> system \<Rightarrow> system" where
  "run_return err s = s\<lparr>runCtx := True, worker := W_Classify err\<rparr>"

text \<open>\<open>newPubsubClient\<close> has returned \<open>err\<close> (\<open>None\<close>: a client).\<close>

definition run_client :: "error option \<Rightarrow> system \<Rightarrow> system" where
  "run_client err s =
     (case err of
        Some e \<Rightarrow> run_return (Some e) (UpdateStatus Degraded (Error e) s)
      | None \<Rightarrow> (UpdateStatus Running [] s)\<lparr>worker := W_Subscribe\<rparr>)"

text \<open>\<open>getOrCreateSubscription\<close>, with the answers of the client.\<close>

definition getOrCreateSubscription :: "client \<Rightarrow> system \<Rightarrow> (error + Subscription) \<times> system" where
  "getOrCreateSubscription c s =
     (let sub = \<lparr>Name = Subscription_Name (config s), NumGoroutines = 0,
                  MaxOutstandingMessages = 0\<rparr>
      in case Exists c of
           Inl err \<Rightarrow> (Inl (Errorf_w ''failed to check if subscription exists: '' err), s)
         | Inr True \<Rightarrow> (Inr sub, s)
         | Inr False \<Rightarrow>
             (if Subscription_Create (config s) then
                (case CreateSubscription c of
                   Some err \<Rightarrow> (Inl (Errorf_w ''failed to create subscription: '' err), s)
                 | None \<Rightarrow>
                     (Inr sub,
                      logger DebugLevel ''Created new subscription.'' None
                        (s\<lparr>created := created s @ [(Subscription_Name (config s), Topic (config s))]\<rparr>)))
              else
                (Inl (New (''no subscription exists and '' @ [CHR 0x27] @ ''subscription.create''
                           @ [CHR 0x27] @ '' is not enabled'')), s)))"

text \<open>
  \<open>run\<close> from the call of \<open>getOrCreateSubscription\<close> up to the call of \<open>sub.Receive\<close>.
\<close>

definition run_subscribe :: "client \<Rightarrow> system \<Rightarrow> system" where
  "run_subscribe c s =
     (case getOrCreateSubscription c s of
        (Inl err, s') \<Rightarrow>
          (let err = Errorf_w ''failed to subscribe to pub/sub topic: '' err
           in run_return (Some err) (UpdateStatus Degraded (Error err) s'))
      | (Inr sub, s') \<Rightarrow>
          s'\<lparr>worker :=
               W_Receive
                 (sub\<lparr>NumGoroutines := Subscription_NumGoroutines (config s'),
                      MaxOutstandingMessages := Subscription_MaxOutstandingMessages (config s')\<rparr>)
                 (makeTopicID (ProjectID (config s')) (Topic (config s')))\<rparr>)"

text \<open>
  The callback passed to \<open>sub.Receive\<close>, on the message \<open>msg\<close>; \<open>ok\<close> is what
  \<open>in.outlet.OnEvent\<close> returns. \<open>in.metrics\<close> is dereferenced after \<open>msg.Nack()\<close>.
\<close>

definition handler :: "string \<Rightarrow> Message \<Rightarrow> bool \<Rightarrow> system \<Rightarrow> system" where
  "handler topicID msg ok s =
     (let event = makeEvent topicID msg \<lparr>instant = clock s, location = LocLocal\<rparr>
      in if ok then s\<lparr>outlet := outlet s @ [event]\<rparr>
         else
           (let s = s\<lparr>acks := acks s @ [(msg, Nack)]\<rparr>
            in case metrics s of
                 None \<Rightarrow> panic s
               | Some m \<Rightarrow>
                   (logger DebugLevel ''OnEvent returned false. Stopping input worker.'' None
                      (s\<lparr>metrics := Some (m\<lparr>nackedMessageCount := nackedMessageCount m + 1\<rparr>)\<rparr>))
                   \<lparr>runCtx := True\<rparr>))"

text \<open>\<open>sub.Receive\<close> has returned \<open>err\<close>; \<open>run\<close> reports an error and returns it.\<close>

definition run_received :: "error option \<Rightarrow> system \<Rightarrow> system" where
  "run_received err s =
     run_return err
       (case err of
          None \<Rightarrow> s
        | Some e \<Rightarrow>
            UpdateStatus Degraded
              (''failed to receive message from pub/sub topic '' @ ProjectID (config s) @ ''/''
                 @ Topic (config s) @ '': '' @ Error e) s)"

text \<open>
  \<open>rt.Wait\<close>, called with a context that is not done, reserves a token with the delay \<open>d\<close>:
  without delay it returns at once, and \<open>run\<close> begins; otherwise it sleeps on a timer set
  for the reserved instant.
\<close>

definition reserve_step :: "int \<Rightarrow> system \<Rightarrow> system" where
  "reserve_step d s =
     (let s1 = s\<lparr>rt := (rt s)\<lparr>reserved := reserved (rt s) @ [clock s + d]\<rparr>\<rparr>
      in if d = 0 then run_begin s1 else s1\<lparr>worker := W_Sleep (clock s + d)\<rparr>)"

text \<open>
  The worker goroutine of \<open>Run\<close>, one step at a time, where the step needs no answer from
  outside. \<open>W_Started\<close>: the first log entry and the limiter. \<open>W_Loop\<close>: the loop condition
  \<open>in.workerCtx.Err() == nil\<close>. \<open>W_Wait\<close>: \<open>rt.Wait(in.workerCtx)\<close> returns the error of a
  context that is done (\<open>continue\<close>); on a new limiter it reserves without delay; on a
  limiter that has reserved before, the delay has to come from outside. \<open>W_Classify\<close>: the
  code after \<open>in.run()\<close> returned. The last four are the deferred function, statement by
  statement; \<open>Done\<close> on a counter that is zero panics.
\<close>

definition worker_step :: "system \<Rightarrow> system option" where
  "worker_step s =
     (case worker s of
        W_Started \<Rightarrow>
          Some ((logger InfoLevel ''Pub/Sub input worker has started.'' None s)
                  \<lparr>rt := NewLimiter, worker := W_Loop\<rparr>)
      | W_Loop \<Rightarrow>
          Some (if workerCtx_Err s then s\<lparr>worker := W_Defer_Cancel\<rparr> else s\<lparr>worker := W_Wait\<rparr>)
      | W_Wait \<Rightarrow>
          (if workerCtx_Err s then Some (s\<lparr>worker := W_Loop\<rparr>)
           else if reserved (rt s) = [] then Some (reserve_step 0 s)
           else None)
      | W_Classify err \<Rightarrow>
          (case err of
             None \<Rightarrow> Some (s\<lparr>worker := W_Loop\<rparr>)
           | Some e \<Rightarrow>
               (if \<not> workerCtx_Err s then
                  Some ((logger WarnLevel ''Restarting failed Pub/Sub input worker.'' (Some e) s)
                          \<lparr>worker := W_Loop\<rparr>)
                else if \<not> Is_Canceled e then
                  Some ((logger ErrorLevel ''Pub/Sub input worker failed.'' (Some e) s)
                          \<lparr>worker := W_Loop\<rparr>)
                else Some (s\<lparr>worker := W_Loop\<rparr>)))
      | W_Defer_Cancel \<Rightarrow> Some (s\<lparr>workerCtx := True, worker := W_Defer_Done\<rparr>)
      | W_Defer_Done \<Rightarrow>
          (if workerWg s = 0 then Some (panic s)
           else Some (s\<lparr>workerWg := workerWg s - 1, worker := W_Defer_Log\<rparr>))
      | W_Defer_Log \<Rightarrow>
          Some ((logger InfoLevel ''Pub/Sub input worker has stopped.'' None s)
                  \<lparr>worker := W_Defer_Status\<rparr>)
      | W_Defer_Status \<Rightarrow> Some ((UpdateStatus Stopped [] s)\<lparr>worker := W_Exited\<rparr>)
      | _ \<Rightarrow> None)"

text \<open>
  \<open>rt.Wait\<close> on a limiter that has reserved before: the context is not done, and the
  limiter gives the delay \<open>d\<close>.
\<close>

definition wait_reserves :: "int \<Rightarrow> system \<Rightarrow> system option" where
  "wait_reserves d s =
     (if worker s = W_Wait \<and> \<not> workerCtx_Err s \<and> 0 \<le> d \<and> reserved (rt s) \<noteq> []
      then Some (reserve_step d s) else None)"

text \<open>
  The sleeping \<open>rt.Wait\<close> returns: \<open>fired\<close> when its timer has expired, at the reserved
  instant or later, and \<open>run\<close> begins; otherwise because the worker's context is done: the
  reservation is cancelled and the loop continues.
\<close>

definition wait_returns :: "bool \<Rightarrow> system \<Rightarrow> system option" where
  "wait_returns fired s =
     (case worker s of
        W_Sleep t \<Rightarrow>
          (if fired then (if t \<le> clock s then Some (run_begin s) else None)
           else (if workerCtx_Err s
                 then Some (s\<lparr>rt := (rt s)\<lparr>reserved := butlast (reserved (rt s))\<rparr>,
                              worker := W_Loop\<rparr>)
                 else None))
      | _ \<Rightarrow> None)"

text \<open>
  The function given to \<open>acker.EventPrivateReporter\<close> in \<open>NewInput\<close>, on one element of
  \<open>privates\<close> and on all of them. A panic ends the loop.
\<close>

definition ack_one :: "priv \<Rightarrow> system \<Rightarrow> system" where
  "ack_one p s =
     (if panicked s then s
      else case p of
        Msg msg \<Rightarrow>
          (let s = s\<lparr>acks := acks s @ [(msg, Ack)]\<rparr>
           in case metrics s of
                None \<Rightarrow> panic s
              | Some m \<Rightarrow>
                  s\<lparr>metrics := Some
                      (m\<lparr>ackedMessageCount := ackedMessageCount m + 1,
                         bytesProcessedTotal := bytesProcessedTotal m + of_nat (length (Data msg)),
                         processingTime :=
                           processingTime m @ [Since (clock s) (PublishTime msg)]\<rparr>)\<rparr>)
      | NotMsg \<Rightarrow>
          (case metrics s of
             None \<Rightarrow> panic s
           | Some m \<Rightarrow>
               logger ErrorLevel ''Failed ACKing pub/sub event'' None
                 (s\<lparr>metrics := Some
                      (m\<lparr>failedAckedMessageCount := failedAckedMessageCount m + 1\<rparr>)\<rparr>)))"

definition EventPrivateReporter :: "priv list \<Rightarrow> system \<Rightarrow> system" where
  "EventPrivateReporter privates s = fold ack_one privates s"

text \<open>
  \<open>Stop\<close>, statement by statement, for the call numbered \<open>i\<close>: \<open>in.workerCancel()\<close>;
  \<open>in.workerWg.Wait()\<close>, which returns only when the counter is zero; \<open>in.metrics.Close()\<close>,
  recorded with its receiver. \<open>Wait\<close> of the input is the same code.
\<close>

definition Stop_cancel :: "nat \<Rightarrow> system \<Rightarrow> system option" where
  "Stop_cancel i s =
     (if stops s i = S_NotCalled then Some (s\<lparr>workerCtx := True, stops := (stops s)(i := S_Wait)\<rparr>)
      else None)"

definition Stop_wait :: "nat \<Rightarrow> system \<Rightarrow> system option" where
  "Stop_wait i s =
     (if stops s i = S_Wait \<and> workerWg s = 0 then Some (s\<lparr>stops := (stops s)(i := S_Close)\<rparr>)
      else None)"

definition Stop_close :: "nat \<Rightarrow> system \<Rightarrow> system option" where
  "Stop_close i s =
     (if stops s i = S_Close then
        Some (s\<lparr>metrics := map_option Close (metrics s),
                closes := closes s @ [metrics s],
                stops := (stops s)(i := S_Returned)\<rparr>)
      else None)"

section \<open>The input running: interleaved steps\<close>

text \<open>
  One step of some goroutine, or of the world. \<open>Tick d\<close>: \<open>d\<close> nanoseconds pass.
  \<open>Call_Run\<close>: a call of \<open>Run\<close>. \<open>Call_Stop_cancel\<close>, \<open>Call_Stop_wait\<close>, \<open>Call_Stop_close\<close>: the
  next statement of the call of \<open>Stop\<close> with that number. \<open>Host_done\<close>: the host closes
  \<open>inputContext.Done\<close>. \<open>Watcher\<close>: the goroutine of \<open>NewInput\<close> moves. \<open>Worker\<close>, \<open>Reserve\<close>,
  \<open>Wait_returns\<close>, \<open>Client_result\<close>, \<open>Subscribe\<close>, \<open>Receive_returns\<close>: the worker moves, with
  what the limiter and the client answer. \<open>Handler\<close>: \<open>Receive\<close> calls the callback on a
  message, and the outlet accepts the event or not. \<open>ACK\<close>: the pipeline reports
  acknowledged events. After a panic nothing moves.
\<close>

datatype action =
    Tick int
  | Call_Run
  | Call_Stop_cancel nat
  | Call_Stop_wait nat
  | Call_Stop_close nat
  | Host_done
  | Watcher
  | Worker
  | Reserve int
  | Wait_returns bool
  | Client_result "error option"
  | Subscribe client
  | Handler Message bool
  | Receive_returns "error option"
  | ACK "priv list"

definition tick :: "int \<Rightarrow> system \<Rightarrow> system option" where
  "tick d s = (if d < 0 then None else Some (s\<lparr>clock := clock s + d\<rparr>))"

definition step :: "action \<Rightarrow> system \<Rightarrow> system option" where
  "step a s =
     (if panicked s then None
      else case a of
        Tick d \<Rightarrow> tick d s
      | Call_Run \<Rightarrow> Some (Run s)
      | Call_Stop_cancel i \<Rightarrow> Stop_cancel i s
      | Call_Stop_wait i \<Rightarrow> Stop_wait i s
      | Call_Stop_close i \<Rightarrow> Stop_close i s
      | Host_done \<Rightarrow> Some (s\<lparr>host_done := True\<rparr>)
      | Watcher \<Rightarrow> watcher_step s
      | Worker \<Rightarrow> worker_step s
      | Reserve d \<Rightarrow> wait_reserves d s
      | Wait_returns fired \<Rightarrow> wait_returns fired s
      | Client_result err \<Rightarrow> (if worker s = W_Client then Some (run_client err s) else None)
      | Subscribe c \<Rightarrow> (if worker s = W_Subscribe then Some (run_subscribe c s) else None)
      | Handler msg ok \<Rightarrow>
          (case worker s of W_Receive sub topicID \<Rightarrow> Some (handler topicID msg ok s) | _ \<Rightarrow> None)
      | Receive_returns err \<Rightarrow>
          (case worker s of W_Receive sub topicID \<Rightarrow> Some (run_received err s) | _ \<Rightarrow> None)
      | ACK privates \<Rightarrow> Some (EventPrivateReporter privates s))"

text \<open>A schedule: the steps in the order they happen. \<open>None\<close>: some step could not happen.\<close>

fun exec :: "action list \<Rightarrow> system \<Rightarrow> system option" where
  "exec [] s = Some s"
| "exec (a # as) s = (case step a s of None \<Rightarrow> None | Some s' \<Rightarrow> exec as s')"

section \<open>Notions used to state the properties\<close>

text \<open>The names in the configuration that are among the candidates, in configuration order.\<close>

definition matching :: "string list \<Rightarrow> C \<Rightarrow> string list" where
  "matching flds cfg = filter (\<lambda>field. field \<in> set flds) (GetFields cfg)"

text \<open>
  What the two loops of \<open>MutuallyExclusiveRequiredFields\<close> come to on the list of matches
  found so far and still to come.
\<close>

fun verdict :: "string list \<Rightarrow> error + string" where
  "verdict [] = Inr []"
| "verdict [m] = Inr m"
| "verdict (m1 # m2 # _) = Inl (err_mutually_exclusive m1 m2)"

definition is_hex :: "char \<Rightarrow> bool" where
  "is_hex c = (c \<in> set hextable)"

text \<open>
  The counter of the wait group at each program point of the worker; the points inside
  \<open>run\<close> and after it; the point inside a sleeping \<open>rt.Wait\<close>.
\<close>

fun wg_of :: "wpc \<Rightarrow> nat" where
  "wg_of W_NotStarted = 0"
| "wg_of W_Defer_Log = 0"
| "wg_of W_Defer_Status = 0"
| "wg_of W_Exited = 0"
| "wg_of _ = 1"

fun in_run :: "wpc \<Rightarrow> bool" where
  "in_run W_Client = True"
| "in_run W_Subscribe = True"
| "in_run (W_Receive _ _) = True"
| "in_run (W_Classify _) = True"
| "in_run _ = False"

fun is_sleep :: "wpc \<Rightarrow> bool" where
  "is_sleep (W_Sleep _) = True"
| "is_sleep _ = False"

text \<open>
  What holds of every state the input reaches. \<open>inv_once\<close>: the \<open>go\<close> statement and
  \<open>newInputMetrics\<close> have run once if \<open>workerOnce\<close> is set and never otherwise, and the
  counter of the wait group follows the worker. \<open>inv_rt\<close>: the limiter has reserved one
  instant for each attempt that has begun, and one more while the worker sleeps in
  \<open>rt.Wait\<close>; no attempt began before the instant reserved for it.
\<close>

definition inv_once :: "system \<Rightarrow> bool" where
  "inv_once s =
     (spawned s = (if workerOnce s then 1 else 0) \<and>
      metrics_made s = (if workerOnce s then 1 else 0) \<and>
      workerOnce s = (metrics s \<noteq> None) \<and>
      workerOnce s = (worker s \<noteq> W_NotStarted) \<and>
      workerWg s = wg_of (worker s))"

definition inv_rt :: "system \<Rightarrow> bool" where
  "inv_rt s =
     ((in_run (worker s) \<longrightarrow> attempts s \<noteq> []) \<and>
      (worker s = W_NotStarted \<or> worker s = W_Started \<longrightarrow> attempts s = [] \<and> rt s = NewLimiter) \<and>
      (\<forall>t. worker s = W_Sleep t \<longrightarrow>
           (\<exists>rs. reserved (rt s) = rs @ [t] \<and> list_all2 (\<le>) rs (attempts s))) \<and>
      (\<not> is_sleep (worker s) \<longrightarrow> list_all2 (\<le>) (reserved (rt s)) (attempts s)))"


definition sys_inv :: "system \<Rightarrow> bool" where
  "sys_inv s = (inv_once s \<and> inv_rt s)"

text \<open>The step that is the \<open>Close\<close> of a call of \<open>Stop\<close>.\<close>

fun is_Stop_close :: "action \<Rightarrow> bool" where
  "is_Stop_close (Call_Stop_close _) = True"
| "is_Stop_close _ = False"

text \<open>A configuration and a message, for the worked examples.\<close>

definition cfg1 :: config where
  "cfg1 = \<lparr>Type = ''gcp-pubsub'', ProjectID = ''p'', Topic = ''t'', Subscription_Name = ''s'',
            Subscription_Create = False, Subscription_NumGoroutines = 1,
            Subscription_MaxOutstandingMessages = 1000\<rparr>"

definition msg1 :: Message where
  "msg1 = \<lparr>ID = ''m1'', Data = [104, 105], Attributes = fmap_of_list [(''k'', ''v'')],
           PublishTime = \<lparr>instant = 5, location = LocLocal\<rparr>\<rparr>"

text \<open>
  The error of \<open>getOrCreateSubscription\<close> when there is no subscription and none may be
  created, and the subscription handle it returns otherwise.
\<close>

definition err_unavailable :: error where
  "err_unavailable =
     New (''no subscription exists and '' @ [CHR 0x27] @ ''subscription.create'' @ [CHR 0x27]
          @ '' is not enabled'')"

definition configured_sub :: "system \<Rightarrow> Subscription" where
  "configured_sub s =
     \<lparr>Name = Subscription_Name (config s), NumGoroutines = 0, MaxOutstandingMessages = 0\<rparr>"

text \<open>
  The messages among the back-references reported to the acknowledgement callback, and
  the number of back-references that are no message.
\<close>

fun msgs_of :: "priv list \<Rightarrow> Message list" where
  "msgs_of [] = []"
| "msgs_of (Msg m # ps) = m # msgs_of ps"
| "msgs_of (NotMsg # ps) = msgs_of ps"

fun failures :: "priv list \<Rightarrow> nat" where
  "failures [] = 0"
| "failures (Msg m # ps) = failures ps"
| "failures (NotMsg # ps) = Suc (failures ps)"

text \<open>
  \<open>bridged ps s m s'\<close>: from the state \<open>s\<close> with metrics \<open>m\<close>, the state \<open>s'\<close> has one \<open>Ack\<close>
  more for each message of \<open>ps\<close>, in order, and no other call on a message; the acked
  counter has grown by the number of these messages, the bytes processed by the sum of
  their payload lengths, the latency distribution by one value for each of them; the
  failed-ack counter has grown by the number of other back-references, with one error
  logged for each; the nacked counter is unchanged; nothing panicked.
\<close>

definition bridged :: "priv list \<Rightarrow> system \<Rightarrow> inputMetrics \<Rightarrow> system \<Rightarrow> bool" where
  "bridged ps s m s' =
     (acks s' = acks s @ map (\<lambda>msg. (msg, Ack)) (msgs_of ps) \<and>
      (\<exists>m'. metrics s' = Some m' \<and>
         ackedMessageCount m' = ackedMessageCount m + of_nat (length (msgs_of ps)) \<and>
         bytesProcessedTotal m' =
           bytesProcessedTotal m + of_nat (sum_list (map (\<lambda>msg. length (Data msg)) (msgs_of ps))) \<and>
         processingTime m' =
           processingTime m @ map (\<lambda>msg. Since (clock s) (PublishTime msg)) (msgs_of ps) \<and>
         failedAckedMessageCount m' = failedAckedMessageCount m + of_nat (failures ps) \<and>
         nackedMessageCount m' = nackedMessageCount m) \<and>
      logs s' =
        logs s @ replicate (failures ps) (ErrorLevel, ''Failed ACKing pub/sub event'', None) \<and>
      \<not> panicked s')"

text \<open>
  A call of \<open>Stop\<close> that is past its \<open>Wait\<close>; the program points of the worker outside every
  attempt; and what holds of every reachable state about the two: a call of \<open>Stop\<close> that
  has begun has cancelled the worker's context, and once one is past its \<open>Wait\<close> the
  worker is outside every attempt.
\<close>

fun past_wait :: "spc \<Rightarrow> bool" where
  "past_wait S_Close = True"
| "past_wait S_Returned = True"
| "past_wait _ = False"

fun idle :: "wpc \<Rightarrow> bool" where
  "idle W_NotStarted = True"
| "idle W_Started = True"
| "idle W_Loop = True"
| "idle W_Defer_Cancel = True"
| "idle W_Defer_Done = True"
| "idle W_Defer_Log = True"
| "idle W_Defer_Status = True"
| "idle W_Exited = True"
| "idle _ = False"

definition stopped_inv :: "system \<Rightarrow> bool" where
  "stopped_inv s =
     (\<forall>i. (stops s i \<noteq> S_NotCalled \<longrightarrow> workerCtx s) \<and>
          (past_wait (stops s i) \<longrightarrow> idle (worker s)))"

text \<open>
  The configuration of the input does not change, and the topic identifier that the
  callback of \<open>Receive\<close> holds is the one made from the configured project and topic.
\<close>

definition topic_inv :: "config \<Rightarrow> system \<Rightarrow> bool" where
  "topic_inv c s =
     (config s = c \<and>
      (\<forall>sub tid. worker s = W_Receive sub tid \<longrightarrow> tid = makeTopicID (ProjectID c) (Topic c)))"

section \<open>Configuration checks: proofs\<close>

lemma scan_candidates_absent:
  "field \<notin> set flds \<Longrightarrow> scan_candidates field flds foundField = Inr foundField"
  by (induction flds arbitrary: foundField) auto

lemma scan_candidates_present:
  "field \<in> set flds \<Longrightarrow> distinct flds \<Longrightarrow> field \<noteq> [] \<Longrightarrow>
   scan_candidates field flds foundField =
     (if foundField = [] then Inr field else Inl (err_mutually_exclusive foundField field))"
  by (induction flds arbitrary: foundField) (auto simp: scan_candidates_absent)

lemma scan_fields_verdict:
  "distinct flds \<Longrightarrow> [] \<notin> set flds \<Longrightarrow>
   scan_fields cfgs flds foundField =
     verdict ((if foundField = [] then [] else [foundField]) @ filter (\<lambda>field. field \<in> set flds) cfgs)"
proof (induction cfgs arbitrary: foundField)
  case Nil
  then show ?case by simp
next
  case (Cons field rest)
  show ?case
  proof (cases "field \<in> set flds")
    case False
    then show ?thesis using Cons by (simp add: scan_candidates_absent)
  next
    case True
    with Cons.prems have ne: "field \<noteq> []" by auto
    show ?thesis
    proof (cases "foundField = []")
      case True
      then show ?thesis
        using \<open>field \<in> set flds\<close> ne Cons
        by (simp add: scan_candidates_present)
    next
      case False
      then show ?thesis
        using \<open>field \<in> set flds\<close> ne Cons.prems
        by (simp add: scan_candidates_present)
    qed
  qed
qed

text \<open>
  For a configuration whose field names are distinct, the number of matches is the number
  of candidates that occur in it.
\<close>

lemma length_matching_card:
  "distinct (GetFields cfg) \<Longrightarrow> length (matching flds cfg) = card (set flds \<inter> set (GetFields cfg))"
proof -
  assume d: "distinct (GetFields cfg)"
  then have "distinct (matching flds cfg)" by (simp add: matching_def)
  then have "length (matching flds cfg) = card (set (matching flds cfg))"
    by (simp add: distinct_card)
  also have "set (matching flds cfg) = set flds \<inter> set (GetFields cfg)"
    by (auto simp: matching_def)
  finally show ?thesis .
qed

text \<open>
  For distinct candidate names, none of them empty, the check does what its comment says:
  it returns nil exactly when one candidate occurs among the configuration's fields;
  when two or more occur it returns the error that names the first two matches as
  mutually exclusive; when none occurs it returns the missing-option error that lists
  the candidates.
\<close>

lemma MutuallyExclusiveRequiredFields_nonempty_names:
  assumes "distinct flds" and "[] \<notin> set flds"
  shows "(MutuallyExclusiveRequiredFields flds cfg = None) = (length (matching flds cfg) = 1) \<and>
         (2 \<le> length (matching flds cfg) \<longrightarrow>
            MutuallyExclusiveRequiredFields flds cfg =
              Some (err_mutually_exclusive (matching flds cfg ! 0) (matching flds cfg ! 1))) \<and>
         (matching flds cfg = [] \<longrightarrow>
            MutuallyExclusiveRequiredFields flds cfg = Some (err_missing_option flds))"
proof -
  have v: "scan_fields (GetFields cfg) flds [] = verdict (matching flds cfg)"
    using scan_fields_verdict[OF assms, of "GetFields cfg" "[]"] by (simp add: matching_def)
  have ne: "m \<noteq> []" if "m \<in> set (matching flds cfg)" for m
    using that assms(2) by (auto simp: matching_def)
  show ?thesis
  proof (cases "matching flds cfg")
    case Nil
    with v show ?thesis by (simp add: MutuallyExclusiveRequiredFields_def)
  next
    case (Cons m ms)
    show ?thesis
    proof (cases ms)
      case Nil
      with Cons ne[of m] have "m \<noteq> []" by simp
      with v Cons Nil show ?thesis by (simp add: MutuallyExclusiveRequiredFields_def)
    next
      case (Cons m2 rest)
      with v \<open>matching flds cfg = m # ms\<close> show ?thesis
        by (simp add: MutuallyExclusiveRequiredFields_def)
    qed
  qed
qed

lemma MutuallyExclusiveRequiredFields_nonempty_names_example:
  "MutuallyExclusiveRequiredFields [''a'', ''b''] \<lparr>GetFields = [''x'', ''b'']\<rparr> = None \<and>
   MutuallyExclusiveRequiredFields [''a'', ''b''] \<lparr>GetFields = [''b'', ''x'', ''a'']\<rparr> =
     Some (err_mutually_exclusive ''b'' ''a'') \<and>
   MutuallyExclusiveRequiredFields [''a'', ''b''] \<lparr>GetFields = [''x'']\<rparr> =
     Some (err_missing_option [''a'', ''b''])"
  using MutuallyExclusiveRequiredFields_nonempty_names
          [of "[''a'', ''b'']" "\<lparr>GetFields = [''x'', ''b'']\<rparr>"]
        MutuallyExclusiveRequiredFields_nonempty_names
          [of "[''a'', ''b'']" "\<lparr>GetFields = [''b'', ''x'', ''a'']\<rparr>"]
        MutuallyExclusiveRequiredFields_nonempty_names
          [of "[''a'', ''b'']" "\<lparr>GetFields = [''x'']\<rparr>"]
  by (simp add: matching_def)

text \<open>
  C10, which the code does not meet. The check keeps the empty string in \<open>foundField\<close> for
  "nothing found yet", so a match on the empty name is not remembered. Take the distinct
  candidates \<open>""\<close> and \<open>"a"\<close>. A configuration with the fields \<open>""\<close> and \<open>"a"\<close>, returned in
  this order, passes the check although two candidates occur in it; with the same fields
  returned in the other order it is refused as mutually exclusive; and a configuration
  whose only field is \<open>""\<close> is refused for a missing option although exactly one
  candidate occurs in it.
\<close>

theorem MutuallyExclusiveRequiredFields_empty_name:
  "distinct [[], ''a''] \<and>
   card (set [[], ''a''] \<inter> set (GetFields \<lparr>GetFields = [[], ''a'']\<rparr>)) = 2 \<and>
   length (matching [[], ''a''] \<lparr>GetFields = [[], ''a'']\<rparr>) = 2 \<and>
   MutuallyExclusiveRequiredFields [[], ''a''] \<lparr>GetFields = [[], ''a'']\<rparr> = None \<and>
   MutuallyExclusiveRequiredFields [[], ''a''] \<lparr>GetFields = [''a'', []]\<rparr> =
     Some (err_mutually_exclusive ''a'' []) \<and>
   card (set [[], ''a''] \<inter> set (GetFields \<lparr>GetFields = [[]]\<rparr>)) = 1 \<and>
   length (matching [[], ''a''] \<lparr>GetFields = [[]]\<rparr>) = 1 \<and>
   MutuallyExclusiveRequiredFields [[], ''a''] \<lparr>GetFields = [[]]\<rparr> =
     Some (err_missing_option [[], ''a''])"
  by (simp add: matching_def MutuallyExclusiveRequiredFields_def)

section \<open>Event identifiers and event fields: proofs\<close>

text \<open>The digest of the empty input, as FIPS 180-4 gives it.\<close>

lemma Sum256_empty:
  "EncodeToString (Sum256 []) =
     ''e3b0c44298fc1c149afbf4c8996fb92427ae41e4649b934ca495991b7852b855''"
  by code_simp

lemma length_be32_bytes: "length (be32_bytes w) = 4"
  by (simp add: be32_bytes_def)

lemma length_Sum256: "length (Sum256 bs) = 32"
  by (simp add: Sum256_def length_be32_bytes split: prod.splits)

lemma length_EncodeToString: "length (EncodeToString src) = 2 * length src"
  by (induction src) (simp_all add: EncodeToString_def)

lemma length_hex_digest: "length (EncodeToString (Sum h [])) = 64"
  by (simp add: length_EncodeToString Sum_def length_Sum256)

lemma hi_nibble: "unat (drop_bit 4 (v::byte)) < 16"
proof -
  have "unat (drop_bit 4 v) = drop_bit 4 (unat v)"
    by (rule unat_drop_bit_eq)
  also have "\<dots> = unat v div 2 ^ 4"
    by (rule drop_bit_eq_div)
  finally have "unat (drop_bit 4 v) = unat v div 16" by simp
  moreover have "unat v < 2 ^ 8" using unsigned_less[of v] by simp
  ultimately show ?thesis by simp
qed

lemma lo_nibble: "unat ((v::byte) AND 0x0f) < 16"
proof -
  have "v AND 0x0f \<le> 0x0f" by (rule word_and_le1)
  then show ?thesis by (simp add: word_le_nat_alt)
qed

lemma hextable_nth: "n < 16 \<Longrightarrow> is_hex (hextable ! n)"
  unfolding is_hex_def by (rule nth_mem) (simp add: hextable_def)

lemma hex_EncodeToString: "list_all is_hex (EncodeToString src)"
  by (induction src) (simp_all add: EncodeToString_def hextable_nth hi_nibble lo_nibble)

lemma makeTopicID_eq:
  "makeTopicID project topic =
     take 10 (EncodeToString (Sum256 (bytes_of project @ bytes_of topic)))"
  by (simp add: makeTopicID_def sha256_New_def Write_def Sum_def)

lemma length_makeTopicID: "length (makeTopicID project topic) = 10"
  by (simp add: makeTopicID_eq length_EncodeToString length_Sum256)

lemma hex_makeTopicID: "list_all is_hex (makeTopicID project topic)"
proof -
  let ?d = "EncodeToString (Sum256 (bytes_of project @ bytes_of topic))"
  have "list_all is_hex (take 10 ?d @ drop 10 ?d)"
    using hex_EncodeToString[of "Sum256 (bytes_of project @ bytes_of topic)"] by simp
  then show ?thesis
    unfolding makeTopicID_eq list_all_append by simp
qed

lemma of_char_char_of_byte: "of_char (char_of (unat (a::byte))) = a"
proof -
  have "(of_char (char_of (unat a)) :: byte) = of_nat (of_char (char_of (unat a)))"
    by (simp only: of_nat_of_char)
  also have "(of_char (char_of (unat a)) :: nat) = unat a mod 256"
    by simp
  also have "unat a mod 256 = unat a"
    using unsigned_less[of a, where 'a = nat] by simp
  finally show ?thesis by simp
qed

lemma bytes_of_string_of: "bytes_of (string_of bs) = bs"
  by (induction bs) (simp_all add: bytes_of_def string_of_def of_char_char_of_byte)

text \<open>
  C1. The event made from a message carries, as its identifier and as its field
  \<open>event.id\<close>, the topic identifier, a hyphen and the identifier of the message; the topic
  identifier is the first 10 characters of the hexadecimal SHA-256 digest of the project
  identifier followed by the topic name, so it has exactly 10 characters, all of them
  hexadecimal digits. The identifier is a function of the three values alone.
\<close>

theorem event_identifier:
  "EventID (makeEvent (makeTopicID project topic) msg now) =
     makeTopicID project topic @ ''-'' @ ID msg \<and>
   field2 (makeEvent (makeTopicID project topic) msg now) ''event'' ''id'' =
     Some (Str (makeTopicID project topic @ ''-'' @ ID msg)) \<and>
   makeTopicID project topic =
     take 10 (EncodeToString (Sum256 (bytes_of project @ bytes_of topic))) \<and>
   length (makeTopicID project topic) = 10 \<and>
   list_all is_hex (makeTopicID project topic)"
  using makeTopicID_eq[of project topic] length_makeTopicID[of project topic]
        hex_makeTopicID[of project topic]
  by (simp add: makeEvent_def SetID_def Let_def field2_def)

text \<open>
  C8. The event made from a message has the publish time of the message, in UTC, as its
  timestamp; the field \<open>event.created\<close> is the current time in UTC; the field \<open>message\<close> is
  the payload as a string, byte for byte; the field \<open>labels\<close> is the attributes of the
  message when there is at least one attribute, and is absent otherwise.
\<close>

theorem makeEvent_fields:
  "Timestamp (makeEvent topicID msg now) = UTC (PublishTime msg) \<and>
   instant (Timestamp (makeEvent topicID msg now)) = instant (PublishTime msg) \<and>
   location (Timestamp (makeEvent topicID msg now)) = LocUTC \<and>
   field2 (makeEvent topicID msg now) ''event'' ''created'' = Some (Tm (UTC now)) \<and>
   fmlookup (Fields (makeEvent topicID msg now)) ''message'' = Some (Str (string_of (Data msg))) \<and>
   bytes_of (string_of (Data msg)) = Data msg \<and>
   fmlookup (Fields (makeEvent topicID msg now)) ''labels'' =
     (if fmdom (Attributes msg) = {||} then None else Some (Labels (Attributes msg)))"
  by (simp add: makeEvent_def SetID_def Let_def field2_def UTC_def bytes_of_string_of)

section \<open>The running input: what every reachable state satisfies\<close>

text \<open>The acknowledgement callback leaves the worker, the contexts, the clock and the limiter alone.\<close>

lemma ack_one_frame:
  "worker (ack_one p s) = worker s" "workerOnce (ack_one p s) = workerOnce s"
  "spawned (ack_one p s) = spawned s" "metrics_made (ack_one p s) = metrics_made s"
  "workerWg (ack_one p s) = workerWg s" "(metrics (ack_one p s) = None) = (metrics s = None)"
  "attempts (ack_one p s) = attempts s" "clock (ack_one p s) = clock s" "rt (ack_one p s) = rt s"
  "workerCtx (ack_one p s) = workerCtx s" "inputCtx (ack_one p s) = inputCtx s"
  by (auto simp: ack_one_def panic_def logger_def Let_def split: priv.splits option.splits)

lemma EventPrivateReporter_frame:
  "worker (EventPrivateReporter ps s) = worker s"
  "workerOnce (EventPrivateReporter ps s) = workerOnce s"
  "spawned (EventPrivateReporter ps s) = spawned s"
  "metrics_made (EventPrivateReporter ps s) = metrics_made s"
  "workerWg (EventPrivateReporter ps s) = workerWg s"
  "(metrics (EventPrivateReporter ps s) = None) = (metrics s = None)"
  "attempts (EventPrivateReporter ps s) = attempts s"
  "clock (EventPrivateReporter ps s) = clock s"
  "rt (EventPrivateReporter ps s) = rt s"
  "workerCtx (EventPrivateReporter ps s) = workerCtx s"
  "inputCtx (EventPrivateReporter ps s) = inputCtx s"
  unfolding EventPrivateReporter_def
  by (induction ps arbitrary: s; simp add: ack_one_frame)+


lemma inv_Stop_cancel: "sys_inv s \<Longrightarrow> pred_option sys_inv (Stop_cancel i s)"
  by (auto simp: Stop_cancel_def sys_inv_def inv_once_def inv_rt_def workerCtx_Err_def)

lemma inv_tick: "sys_inv s \<Longrightarrow> pred_option sys_inv (tick d s)"
  by (auto simp: tick_def sys_inv_def inv_once_def inv_rt_def workerCtx_Err_def)

lemma inv_Run: "sys_inv s \<Longrightarrow> sys_inv (Run s)"
  by (auto simp: Run_def sys_inv_def inv_once_def inv_rt_def workerCtx_Err_def NewLimiter_def)

lemma inv_Stop_wait: "sys_inv s \<Longrightarrow> pred_option sys_inv (Stop_wait i s)"
  by (auto simp: Stop_wait_def sys_inv_def inv_once_def inv_rt_def workerCtx_Err_def)

lemma inv_Stop_close: "sys_inv s \<Longrightarrow> pred_option sys_inv (Stop_close i s)"
  by (auto simp: Stop_close_def sys_inv_def inv_once_def inv_rt_def workerCtx_Err_def)

lemma inv_host_done: "sys_inv s \<Longrightarrow> sys_inv (s\<lparr>host_done := True\<rparr>)"
  by (auto simp: sys_inv_def inv_once_def inv_rt_def workerCtx_Err_def)

lemma inv_watcher: "sys_inv s \<Longrightarrow> pred_option sys_inv (watcher_step s)"
  by (cases "watcher s")
     (auto simp: watcher_step_def UpdateStatus_def sys_inv_def inv_once_def inv_rt_def
        workerCtx_Err_def)

lemma inv_once_worker: "inv_once s \<Longrightarrow> pred_option inv_once (worker_step s)"
  by (cases "worker s")
     (auto simp: worker_step_def inv_once_def logger_def UpdateStatus_def panic_def run_begin_def
           reserve_step_def Let_def split: option.split)

lemma inv_rt_worker: "inv_rt s \<Longrightarrow> pred_option inv_rt (worker_step s)"
  by (cases "worker s")
     (auto simp: inv_rt_def worker_step_def reserve_step_def run_begin_def logger_def
        UpdateStatus_def panic_def workerCtx_Err_def NewLimiter_def Let_def
        split: option.split)

lemma pred_option_conj:
  "pred_option P r \<Longrightarrow> pred_option Q r \<Longrightarrow> pred_option (\<lambda>s. P s \<and> Q s) r"
  by (cases r) auto

lemma inv_worker: "sys_inv s \<Longrightarrow> pred_option sys_inv (worker_step s)"
proof -
  assume "sys_inv s"
  then have "pred_option inv_once (worker_step s)" and "pred_option inv_rt (worker_step s)"
    by (simp_all add: sys_inv_def inv_once_worker inv_rt_worker)
  then show ?thesis
    by (cases "worker_step s") (simp_all add: sys_inv_def)
qed

lemma inv_wait_returns: "sys_inv s \<Longrightarrow> pred_option sys_inv (wait_returns f s)"
  by (cases "worker s")
     (auto simp: wait_returns_def sys_inv_def inv_once_def inv_rt_def run_begin_def
        workerCtx_Err_def intro!: list_all2_appendI)

lemma inv_wait_reserves: "sys_inv s \<Longrightarrow> pred_option sys_inv (wait_reserves d s)"
  by (auto simp: wait_reserves_def reserve_step_def sys_inv_def inv_once_def inv_rt_def
        run_begin_def workerCtx_Err_def Let_def intro!: list_all2_appendI)

lemma inv_client: "sys_inv s \<Longrightarrow> worker s = W_Client \<Longrightarrow> sys_inv (run_client e s)"
  by (cases e)
     (auto simp: run_client_def sys_inv_def inv_once_def inv_rt_def run_return_def UpdateStatus_def
        workerCtx_Err_def)

lemma inv_subscribe: "sys_inv s \<Longrightarrow> worker s = W_Subscribe \<Longrightarrow> sys_inv (run_subscribe c s)"
  by (auto simp: run_subscribe_def getOrCreateSubscription_def sys_inv_def inv_once_def inv_rt_def
        run_return_def UpdateStatus_def logger_def workerCtx_Err_def Let_def
        split: option.split sum.split bool.split)

lemma inv_handler: "sys_inv s \<Longrightarrow> worker s = W_Receive sub tid \<Longrightarrow> sys_inv (handler tid msg ok s)"
  by (auto simp: handler_def sys_inv_def inv_once_def inv_rt_def logger_def panic_def
        workerCtx_Err_def Let_def split: option.split)

lemma inv_received: "sys_inv s \<Longrightarrow> worker s = W_Receive sub tid \<Longrightarrow> sys_inv (run_received e s)"
  by (cases e)
     (auto simp: run_received_def sys_inv_def inv_once_def inv_rt_def run_return_def UpdateStatus_def
        workerCtx_Err_def)

lemma inv_ACK: "sys_inv s \<Longrightarrow> sys_inv (EventPrivateReporter ps s)"
  by (auto simp: sys_inv_def inv_once_def inv_rt_def EventPrivateReporter_frame workerCtx_Err_def)

lemma inv_step: "sys_inv s \<Longrightarrow> pred_option sys_inv (step a s)"
  by (cases a)
     (simp_all add: step_def inv_tick inv_Run inv_Stop_cancel inv_Stop_wait inv_Stop_close
        inv_host_done inv_watcher inv_worker inv_wait_returns inv_wait_reserves inv_client
        inv_subscribe
        inv_handler inv_received inv_ACK split: wpc.split)

lemma inv_exec: "sys_inv s \<Longrightarrow> pred_option sys_inv (exec sched s)"
proof (induction sched arbitrary: s)
  case Nil
  then show ?case by simp
next
  case (Cons a as)
  from inv_step[OF Cons.prems, of a] show ?case
    by (cases "step a s") (simp_all add: Cons.IH)
qed

lemma inv_NewInput: "NewInput unpacked cid connected t = Inr s \<Longrightarrow> sys_inv s"
  by (auto simp: NewInput_def sys_inv_def inv_once_def inv_rt_def workerCtx_Err_def NewLimiter_def
        Let_def split: sum.splits option.splits)

section \<open>The running input: single steps and schedules\<close>

lemmas worker_defs =
  worker_step_def wait_reserves_def reserve_step_def wait_returns_def run_client_def run_subscribe_def handler_def run_received_def
  run_return_def run_begin_def UpdateStatus_def logger_def panic_def getOrCreateSubscription_def

lemmas other_defs =
  step_def tick_def Run_def Stop_cancel_def Stop_wait_def Stop_close_def watcher_step_def

lemma ack_one_closes: "closes (ack_one p s) = closes s"
  by (auto simp: ack_one_def panic_def logger_def Let_def split: priv.split option.split)

lemma EventPrivateReporter_closes: "closes (EventPrivateReporter ps s) = closes s"
  unfolding EventPrivateReporter_def
  by (induction ps arbitrary: s) (simp_all add: ack_one_closes)

lemma ack_one_stops: "stops (ack_one p s) = stops s" "outlet (ack_one p s) = outlet s"
  by (auto simp: ack_one_def panic_def logger_def Let_def split: priv.split option.split)

lemma EventPrivateReporter_stops:
  "stops (EventPrivateReporter ps s) = stops s" "outlet (EventPrivateReporter ps s) = outlet s"
  unfolding EventPrivateReporter_def
  by (induction ps arbitrary: s; simp add: ack_one_stops)+

lemma step_workerOnce:
  "pred_option (\<lambda>s'. workerOnce s' = (workerOnce s \<or> a = Call_Run)) (step a s)"
  by (cases a)
     (auto simp: other_defs worker_defs EventPrivateReporter_frame Let_def
        split: wpc.split gpc.split option.split sum.split bool.split prod.split)

lemma step_closes:
  "pred_option (\<lambda>s'. closes s' = closes s @ (if is_Stop_close a then [metrics s] else []))
     (step a s)"
  by (cases a)
     (auto simp: other_defs worker_defs EventPrivateReporter_closes Let_def
        split: wpc.split gpc.split option.split sum.split bool.split prod.split)



lemma exec_workerOnce:
  "exec sched s = Some s' \<Longrightarrow> workerOnce s' = (workerOnce s \<or> Call_Run \<in> set sched)"
proof (induction sched arbitrary: s)
  case Nil
  then show ?case by simp
next
  case (Cons a as)
  then obtain s1 where s1: "step a s = Some s1" and r: "exec as s1 = Some s'"
    by (auto split: option.splits)
  from step_workerOnce[of s a] s1 have "workerOnce s1 = (workerOnce s \<or> a = Call_Run)"
    by simp
  with Cons.IH[OF r] show ?case by auto
qed


lemma exec_closes_length:
  "exec sched s = Some s' \<Longrightarrow>
   length (closes s') = length (closes s) + length (filter is_Stop_close sched)"
proof (induction sched arbitrary: s)
  case Nil
  then show ?case by simp
next
  case (Cons a as)
  then obtain s1 where s1: "step a s = Some s1" and r: "exec as s1 = Some s'"
    by (auto split: option.splits)
  from step_closes[of s a] s1
  have "closes s1 = closes s @ (if is_Stop_close a then [metrics s] else [])" by simp
  with Cons.IH[OF r] show ?case by simp
qed

lemma exec_closes_None:
  "exec sched s = Some s' \<Longrightarrow> \<not> workerOnce s \<Longrightarrow> sys_inv s \<Longrightarrow> Call_Run \<notin> set sched \<Longrightarrow>
   closes s' = closes s @ replicate (length (filter is_Stop_close sched)) None"
proof (induction sched arbitrary: s)
  case Nil
  then show ?case by simp
next
  case (Cons a as)
  then obtain s1 where s1: "step a s = Some s1" and r: "exec as s1 = Some s'"
    by (auto split: option.splits)
  from Cons.prems have a: "a \<noteq> Call_Run" and as: "Call_Run \<notin> set as" by auto
  from step_workerOnce[of s a] s1 a Cons.prems(2) have w1: "\<not> workerOnce s1" by simp
  from inv_step[OF Cons.prems(3), of a] s1 have i1: "sys_inv s1" by simp
  from Cons.prems(2,3) have "metrics s = None" by (simp add: sys_inv_def inv_once_def)
  with step_closes[of s a] s1
  have c1: "closes s1 = closes s @ (if is_Stop_close a then [None] else [])" by simp
  from Cons.IH[OF r w1 i1 as] c1 show ?case
    by (simp add: replicate_app_Cons_same)
qed

lemma exec_closes_Some:
  "exec sched s = Some s' \<Longrightarrow> workerOnce s \<Longrightarrow> sys_inv s \<Longrightarrow>
   \<exists>new. closes s' = closes s @ new \<and> length new = length (filter is_Stop_close sched) \<and>
         list_all (\<lambda>r. r \<noteq> None) new"
proof (induction sched arbitrary: s)
  case Nil
  then show ?case by simp
next
  case (Cons a as)
  then obtain s1 where s1: "step a s = Some s1" and r: "exec as s1 = Some s'"
    by (auto split: option.splits)
  from step_workerOnce[of s a] s1 Cons.prems(2) have w1: "workerOnce s1" by simp
  from inv_step[OF Cons.prems(3), of a] s1 have i1: "sys_inv s1" by simp
  from Cons.prems(2,3) have m: "metrics s \<noteq> None" by (simp add: sys_inv_def inv_once_def)
  from step_closes[of s a] s1
  have c1: "closes s1 = closes s @ (if is_Stop_close a then [metrics s] else [])" by simp
  from Cons.IH[OF r w1 i1] obtain new where
    n: "closes s' = closes s1 @ new" "length new = length (filter is_Stop_close as)"
       "list_all (\<lambda>r. r \<noteq> None) new"
    by blast
  show ?case
  proof (cases "is_Stop_close a")
    case True
    with c1 n m show ?thesis
      by (intro exI[of _ "metrics s # new"]) simp
  next
    case False
    with c1 n show ?thesis
      by (intro exI[of _ new]) simp
  qed
qed

lemma NewInput_fields:
  "NewInput unpacked cid connected t = Inr s \<Longrightarrow>
   \<not> workerOnce s \<and> metrics s = None \<and> closes s = [] \<and> spawned s = 0 \<and> metrics_made s = 0 \<and>
   worker s = W_NotStarted \<and> \<not> panicked s \<and> workerWg s = 0 \<and> \<not> workerCtx s \<and> \<not> inputCtx s \<and>
   outlet s = [] \<and> attempts s = [] \<and> acks s = [] \<and> (\<forall>i. stops s i = S_NotCalled)"
  by (auto simp: NewInput_def Let_def split: sum.splits option.splits)

section \<open>Run and Stop: proofs\<close>

text \<open>
  C3. However often \<open>Run\<close> is called, and whatever the other goroutines do between the calls,
  the \<open>go\<close> statement that starts the worker and \<open>newInputMetrics\<close> are executed once if
  \<open>Run\<close> was called at all, and never otherwise. A call of \<open>Run\<close> after the first changes
  nothing. A call of \<open>Run\<close> is a single step that can be taken wherever the worker stands;
  when the first call returns the worker has only been started.
\<close>

theorem Run_starts_one_worker:
  assumes "NewInput unpacked cid connected t = Inr s0" and "exec sched s0 = Some s"
  shows "spawned s = min 1 (count_list sched Call_Run) \<and>
         metrics_made s = min 1 (count_list sched Call_Run) \<and>
         (0 < count_list sched Call_Run \<longrightarrow> Run s = s) \<and>
         (\<not> panicked s \<longrightarrow> step Call_Run s = Some (Run s)) \<and>
         worker (Run s0) = W_Started \<and> step Call_Run s0 = Some (Run s0)"
proof -
  from assms(1) have f: "\<not> workerOnce s0" "\<not> panicked s0"
    using NewInput_fields by blast+
  have i: "sys_inv s"
    using inv_exec[OF inv_NewInput[OF assms(1)], of sched] assms(2) by simp
  have w: "workerOnce s = (Call_Run \<in> set sched)"
    using exec_workerOnce[OF assms(2)] f by simp
  have c: "(0 < count_list sched Call_Run) = (Call_Run \<in> set sched)"
    using count_list_0_iff[of sched Call_Run] by auto
  from i w c show ?thesis
    using f by (auto simp: sys_inv_def inv_once_def step_def Run_def min_def)
qed

theorem Run_starts_one_worker_witness:
  "(case NewInput (Inr cfg1) (Inr ''id'') None 0 of
      Inl _ \<Rightarrow> False
    | Inr s0 \<Rightarrow>
       (case exec [Call_Run, Worker, Call_Run, Call_Run] s0 of
          None \<Rightarrow> False
        | Some s \<Rightarrow> spawned s = 1 \<and> metrics_made s = 1 \<and> Run s = s \<and> worker s = W_Loop))"
proof -
  obtain s0 where s0: "NewInput (Inr cfg1) (Inr ''id'') None 0 = Inr s0"
    by (simp add: NewInput_def)
  then have f: "\<not> workerOnce s0" "\<not> panicked s0" "worker s0 = W_NotStarted"
    using NewInput_fields by blast+
  obtain s where s: "exec [Call_Run, Worker, Call_Run, Call_Run] s0 = Some s"
    and w: "worker s = W_Loop"
    using f by (simp add: step_def Run_def worker_step_def logger_def)
  from Run_starts_one_worker[OF s0 s] s0 s w show ?thesis by simp
qed

text \<open>
  C9. \<open>NewInput\<close> leaves the metrics nil, and they are non-nil exactly when \<open>Run\<close> has been
  called. Every call of \<open>Stop\<close> that reaches its last statement calls \<open>Close\<close> on the metrics
  as they are: on an input on which \<open>Run\<close> was never called every such receiver is nil, and
  when \<open>Run\<close> was called first none is.
\<close>

theorem Stop_without_Run_closes_nil_metrics:
  assumes "NewInput unpacked cid connected t = Inr s0" and "exec sched s0 = Some s"
  shows "metrics s0 = None \<and>
         (metrics s \<noteq> None) = (Call_Run \<in> set sched) \<and>
         length (closes s) = length (filter is_Stop_close sched) \<and>
         (Call_Run \<notin> set sched \<longrightarrow> list_all (\<lambda>r. r = None) (closes s)) \<and>
         ((\<exists>rest. sched = Call_Run # rest) \<longrightarrow> list_all (\<lambda>r. r \<noteq> None) (closes s))"
proof -
  note f = NewInput_fields[OF assms(1)]
  have i0: "sys_inv s0" by (rule inv_NewInput[OF assms(1)])
  have i: "sys_inv s"
    using inv_exec[OF i0, of sched] assms(2) by simp
  have w: "workerOnce s = (Call_Run \<in> set sched)"
    using exec_workerOnce[OF assms(2)] f by simp
  have m: "(metrics s \<noteq> None) = (Call_Run \<in> set sched)"
    using i w by (simp add: sys_inv_def inv_once_def)
  have l: "length (closes s) = length (filter is_Stop_close sched)"
    using exec_closes_length[OF assms(2)] f by simp
  have n: "list_all (\<lambda>r. r = None) (closes s)" if "Call_Run \<notin> set sched"
    using exec_closes_None[OF assms(2) _ i0 that] f by (simp add: list_all_iff)
  have p: "list_all (\<lambda>r. r \<noteq> None) (closes s)" if "sched = Call_Run # rest" for rest
  proof -
    from that assms(2) f have r: "exec rest (Run s0) = Some s"
      by (simp add: step_def)
    have "workerOnce (Run s0)" by (simp add: Run_def)
    moreover have "sys_inv (Run s0)" by (rule inv_Run[OF i0])
    moreover have "closes (Run s0) = []" using f by (simp add: Run_def)
    ultimately show ?thesis
      using exec_closes_Some[OF r] by auto
  qed
  from f m l n p show ?thesis by blast
qed

theorem Stop_without_Run_closes_nil_metrics_witness:
  "(case NewInput (Inr cfg1) (Inr ''id'') None 0 of
      Inl _ \<Rightarrow> False
    | Inr s0 \<Rightarrow>
        metrics s0 = None \<and>
        (case exec [Call_Stop_cancel 0, Call_Stop_wait 0, Call_Stop_close 0] s0 of
           None \<Rightarrow> False
         | Some s \<Rightarrow> stops s 0 = S_Returned \<and> closes s = [None]) \<and>
        (case exec [Call_Run, Call_Stop_cancel 0, Worker, Worker, Worker, Worker,
                    Call_Stop_wait 0, Call_Stop_close 0] s0 of
           None \<Rightarrow> False
         | Some s \<Rightarrow> stops s 0 = S_Returned \<and> length (closes s) = 1 \<and>
                     list_all (\<lambda>r. r \<noteq> None) (closes s)))"
proof -
  obtain s0 where s0: "NewInput (Inr cfg1) (Inr ''id'') None 0 = Inr s0"
    by (simp add: NewInput_def)
  note f = NewInput_fields[OF s0]
  obtain s where s: "exec [Call_Stop_cancel 0, Call_Stop_wait 0, Call_Stop_close 0] s0 = Some s"
    and r: "stops s 0 = S_Returned"
    using f by (simp add: step_def Stop_cancel_def Stop_wait_def Stop_close_def)
  obtain s' where s': "exec [Call_Run, Call_Stop_cancel 0, Worker, Worker, Worker, Worker,
                    Call_Stop_wait 0, Call_Stop_close 0] s0 = Some s'"
    and r': "stops s' 0 = S_Returned"
    using f by (simp add: step_def Run_def Stop_cancel_def Stop_wait_def Stop_close_def
          worker_step_def logger_def workerCtx_Err_def)
  from Stop_without_Run_closes_nil_metrics[OF s0 s] Stop_without_Run_closes_nil_metrics[OF s0 s']
  show ?thesis
    using s0 s s' r r' by (cases "closes s") (simp_all add: list_all_iff)
qed

text \<open>
  C4, which the code does not meet. The deferred function of the worker calls
  \<open>in.workerWg.Done()\<close> before it reports \<open>Stopped\<close>, so \<open>Stop\<close> can return in between. On
  this schedule \<open>Run\<close> is called, the worker starts an attempt and receives, \<open>Stop\<close> cancels
  the context, \<open>Receive\<close> returns, the worker leaves its loop, cancels and calls \<open>Done\<close>;
  then \<open>Stop\<close> passes its \<open>Wait\<close>, closes the metrics and returns, while the worker still
  stands before its last log entry and no \<open>Stopped\<close> has been reported.
\<close>

theorem Stop_returns_before_Stopped:
  "(case NewInput (Inr cfg1) (Inr ''id'') None 0 of
      Inl _ \<Rightarrow> False
    | Inr s0 \<Rightarrow>
        (case exec [Call_Run, Worker, Worker, Worker, Client_result None,
                    Subscribe \<lparr>Exists = Inr True, CreateSubscription = None\<rparr>,
                    Call_Stop_cancel 0, Receive_returns None, Worker, Worker, Worker, Worker,
                    Call_Stop_wait 0, Call_Stop_close 0] s0 of
           None \<Rightarrow> False
         | Some s \<Rightarrow>
             stops s 0 = S_Returned \<and> worker s = W_Defer_Log \<and>
             map fst (status s) = [Starting, Configuring, Running] \<and>
             (Stopped, []) \<notin> set (status s)))"
  by (simp add: NewInput_def cfg1_def step_def Run_def worker_step_def
      workerCtx_Err_def logger_def NewLimiter_def reserve_step_def run_begin_def
      run_client_def UpdateStatus_def run_subscribe_def getOrCreateSubscription_def
      Stop_cancel_def Stop_wait_def Stop_close_def run_received_def run_return_def Let_def)

text \<open>
  What does hold once a call of \<open>Stop\<close> is past its \<open>Wait\<close>: the worker's context is
  cancelled, the worker is outside every attempt, and no later step delivers an event
  to the outlet.
\<close>

lemma stopped_inv_step: "sys_inv s \<Longrightarrow> stopped_inv s \<Longrightarrow> pred_option stopped_inv (step a s)"
proof (cases a)
  case (Call_Stop_wait i)
  assume "sys_inv s" "stopped_inv s"
  then show ?thesis
    using Call_Stop_wait
    by (cases "worker s")
       (auto simp: stopped_inv_def sys_inv_def inv_once_def step_def Stop_wait_def)
next
  case (Call_Stop_close i)
  assume "sys_inv s" and si: "stopped_inv s"
  show ?thesis
  proof (cases "stops s i = S_Close")
    case True
    from si have "stops s i \<noteq> S_NotCalled \<longrightarrow> workerCtx s"
      and "past_wait (stops s i) \<longrightarrow> idle (worker s)"
      unfolding stopped_inv_def by blast+
    with True have "workerCtx s" "idle (worker s)" by simp_all
    with si show ?thesis
      using Call_Stop_close True by (auto simp: stopped_inv_def step_def Stop_close_def)
  next
    case False
    then show ?thesis
      using Call_Stop_close by (simp add: step_def Stop_close_def)
  qed
next
  case Worker
  assume "sys_inv s" "stopped_inv s"
  then show ?thesis
    using Worker
    by (cases "worker s")
       (auto simp: stopped_inv_def step_def worker_step_def workerCtx_Err_def logger_def
          UpdateStatus_def panic_def run_begin_def reserve_step_def Let_def
          split: option.split)
next
  case (Wait_returns f)
  assume "sys_inv s" "stopped_inv s"
  then show ?thesis
    using Wait_returns
    by (cases "worker s")
       (auto simp: stopped_inv_def step_def wait_returns_def workerCtx_Err_def run_begin_def)
qed (auto simp: stopped_inv_def other_defs worker_defs EventPrivateReporter_frame
       EventPrivateReporter_stops Let_def
       split: wpc.split gpc.split option.split sum.split bool.split prod.split)

lemma stopped_inv_exec:
  "sys_inv s \<Longrightarrow> stopped_inv s \<Longrightarrow> pred_option stopped_inv (exec sched s)"
proof (induction sched arbitrary: s)
  case Nil
  then show ?case by simp
next
  case (Cons a as)
  from inv_step[OF Cons.prems(1), of a] stopped_inv_step[OF Cons.prems, of a] show ?case
    by (cases "step a s") (simp_all add: Cons.IH)
qed

lemma step_outlet:
  "idle (worker s) \<Longrightarrow> pred_option (\<lambda>s'. outlet s' = outlet s) (step a s)"
  by (cases a; cases "worker s")
     (auto simp: other_defs worker_defs EventPrivateReporter_stops Let_def
        split: gpc.split option.split sum.split bool.split prod.split)

lemma step_stops_past:
  "past_wait (stops s i) \<Longrightarrow> pred_option (\<lambda>s'. past_wait (stops s' i)) (step a s)"
  by (cases a)
     (auto simp: other_defs worker_defs EventPrivateReporter_stops Let_def
        split: wpc.split gpc.split option.split sum.split bool.split prod.split)

lemma stopped_inv_Returned:
  "stopped_inv s \<Longrightarrow> past_wait (stops s i) \<Longrightarrow> workerCtx s \<and> idle (worker s)"
proof -
  assume si: "stopped_inv s" and p: "past_wait (stops s i)"
  from si have "stops s i \<noteq> S_NotCalled \<longrightarrow> workerCtx s"
    and "past_wait (stops s i) \<longrightarrow> idle (worker s)"
    unfolding stopped_inv_def by blast+
  with p show ?thesis by (cases "stops s i") simp_all
qed

lemma no_delivery_after_Stop:
  assumes "sys_inv s" and "stopped_inv s" and "past_wait (stops s i)" and "exec sched s = Some s'"
  shows "outlet s' = outlet s \<and> workerCtx s' \<and> idle (worker s')"
  using assms
proof (induction sched arbitrary: s)
  case Nil
  then show ?case using stopped_inv_Returned[of s i] by simp
next
  case (Cons a as)
  then obtain s1 where s1: "step a s = Some s1" and r: "exec as s1 = Some s'"
    by (auto split: option.splits)
  from stopped_inv_Returned[OF Cons.prems(2,3)] have idle: "idle (worker s)" by simp
  from inv_step[OF Cons.prems(1), of a] s1 have i1: "sys_inv s1" by simp
  from stopped_inv_step[OF Cons.prems(1,2), of a] s1 have st1: "stopped_inv s1" by simp
  from step_outlet[OF idle, of a] s1 have o1: "outlet s1 = outlet s" by simp
  from step_stops_past[OF Cons.prems(3), of a] s1 have p1: "past_wait (stops s1 i)" by simp
  from Cons.IH[OF i1 st1 p1 r] o1 show ?case by simp
qed

lemma stopped_inv_NewInput: "NewInput unpacked cid connected t = Inr s \<Longrightarrow> stopped_inv s"
  by (auto simp: NewInput_def stopped_inv_def Let_def split: sum.splits option.splits)

section \<open>The worker and the acknowledgement callback: proofs\<close>






text \<open>
  C5. \<open>getOrCreateSubscription\<close> returns the subscription of the configured name when
  \<open>Exists\<close> answers true, and then creates nothing. When \<open>Exists\<close> answers false and creation
  is enabled, and the client creates the subscription, it returns the subscription and
  the subscription has been created on the configured topic. When \<open>Exists\<close> answers false
  and creation is not enabled it returns the error saying so and creates nothing; the
  worker, unless its context is done, then reports \<open>Degraded\<close>, logs a warning and goes
  back to the rate limiter for another attempt.
\<close>

theorem getOrCreateSubscription_policy:
  "(Exists c = Inr True \<longrightarrow> getOrCreateSubscription c s = (Inr (configured_sub s), s)) \<and>
   (Exists c = Inr False \<and> Subscription_Create (config s) \<and> CreateSubscription c = None \<longrightarrow>
      fst (getOrCreateSubscription c s) = Inr (configured_sub s) \<and>
      created (snd (getOrCreateSubscription c s)) =
        created s @ [(Subscription_Name (config s), Topic (config s))]) \<and>
   (Exists c = Inr False \<and> \<not> Subscription_Create (config s) \<longrightarrow>
      getOrCreateSubscription c s = (Inl err_unavailable, s) \<and>
      (worker s = W_Subscribe \<and> \<not> panicked s \<and> \<not> workerCtx_Err s \<longrightarrow>
         (\<exists>s'. exec [Subscribe c, Worker, Worker] s = Some s' \<and>
               worker s' = W_Wait \<and> created s' = created s \<and> \<not> panicked s' \<and>
               status s' =
                 status s @
                 [(Degraded,
                   Error (Errorf_w ''failed to subscribe to pub/sub topic: '' err_unavailable))] \<and>
               logs s' =
                 logs s @
                 [(WarnLevel, ''Restarting failed Pub/Sub input worker.'',
                   Some (Errorf_w ''failed to subscribe to pub/sub topic: '' err_unavailable))])))"
  by (simp add: getOrCreateSubscription_def configured_sub_def err_unavailable_def Let_def
      logger_def step_def run_subscribe_def run_return_def UpdateStatus_def worker_step_def
      workerCtx_Err_def)

theorem getOrCreateSubscription_policy_witness:
  "(case NewInput (Inr cfg1) (Inr ''id'') None 0 of
      Inl _ \<Rightarrow> False
    | Inr s0 \<Rightarrow>
        (case exec [Call_Run, Worker, Worker, Worker, Client_result None] s0 of
           None \<Rightarrow> False
         | Some s \<Rightarrow>
             getOrCreateSubscription \<lparr>Exists = Inr True, CreateSubscription = None\<rparr> s =
               (Inr (configured_sub s), s) \<and>
             created
               (snd (getOrCreateSubscription \<lparr>Exists = Inr False, CreateSubscription = None\<rparr>
                       (s\<lparr>config := cfg1\<lparr>Subscription_Create := True\<rparr>\<rparr>))) = [(''s'', ''t'')] \<and>
             (case exec [Subscribe \<lparr>Exists = Inr False, CreateSubscription = None\<rparr>,
                         Worker, Worker] s of
                None \<Rightarrow> False
              | Some s' \<Rightarrow> worker s' = W_Wait \<and> created s' = [] \<and>
                  map fst (status s') = [Starting, Configuring, Running, Degraded])))"
proof -
  obtain s0 where s0: "NewInput (Inr cfg1) (Inr ''id'') None 0 = Inr s0"
    by (simp add: NewInput_def)
  note f = NewInput_fields[OF s0]
  have g: "config s0 = cfg1" "created s0 = []" "status s0 = [(Starting, []), (Configuring, [])]"
    "clock s0 = 0"
    using s0 by (auto simp: NewInput_def Let_def)
  obtain s where s: "exec [Call_Run, Worker, Worker, Worker, Client_result None] s0 = Some s"
    and w: "worker s = W_Subscribe" "\<not> panicked s" "\<not> workerCtx_Err s"
    and c: "config s = cfg1" "created s = []"
      "status s = [(Starting, []), (Configuring, []), (Running, [])]"
    using f g
    by (simp add: step_def Run_def worker_step_def workerCtx_Err_def logger_def NewLimiter_def
          reserve_step_def run_begin_def run_client_def UpdateStatus_def Let_def)
  let ?c1 = "\<lparr>Exists = Inr True, CreateSubscription = None\<rparr>"
  let ?c2 = "\<lparr>Exists = Inr False, CreateSubscription = None\<rparr>"
  from getOrCreateSubscription_policy[of ?c1 s]
       getOrCreateSubscription_policy[of ?c2 "s\<lparr>config := cfg1\<lparr>Subscription_Create := True\<rparr>\<rparr>"]
       getOrCreateSubscription_policy[of ?c2 s]
  show ?thesis
    using s0 s w c by (auto simp: cfg1_def)
qed

text \<open>
  C6. When \<open>run\<close> has returned an error, the worker's context alone decides: if it is not
  done, the error, whatever it is, is logged as a warning and the loop goes on to the
  rate limiter; if it is done, an error that is \<open>context.Canceled\<close> (or wraps it) is not
  logged, any other error is logged at error level, and in both cases the loop ends.
\<close>

theorem watchdog_classifies_by_outer_context:
  assumes "worker s = W_Classify (Some e)" and "\<not> panicked s"
  shows "(\<not> workerCtx_Err s \<longrightarrow>
            exec [Worker, Worker] s =
              Some ((logger WarnLevel ''Restarting failed Pub/Sub input worker.'' (Some e) s)
                      \<lparr>worker := W_Wait\<rparr>)) \<and>
         (workerCtx_Err s \<and> Is_Canceled e \<longrightarrow>
            exec [Worker, Worker] s = Some (s\<lparr>worker := W_Defer_Cancel\<rparr>)) \<and>
         (workerCtx_Err s \<and> \<not> Is_Canceled e \<longrightarrow>
            exec [Worker, Worker] s =
              Some ((logger ErrorLevel ''Pub/Sub input worker failed.'' (Some e) s)
                      \<lparr>worker := W_Defer_Cancel\<rparr>))"
  using assms
  by (simp add: step_def worker_step_def logger_def workerCtx_Err_def)

theorem watchdog_classifies_by_outer_context_witness:
  "(case NewInput (Inr cfg1) (Inr ''id'') None 0 of
      Inl _ \<Rightarrow> False
    | Inr s0 \<Rightarrow>
        (case exec [Call_Run, Worker, Worker, Worker, Client_result (Some (New ''quota''))] s0 of
           None \<Rightarrow> False
         | Some s \<Rightarrow>
             (case exec [Worker, Worker] s of
                None \<Rightarrow> False
              | Some s' \<Rightarrow>
                  worker s' = W_Wait \<and>
                  logs s' =
                    logs s @
                    [(WarnLevel, ''Restarting failed Pub/Sub input worker.'', Some (New ''quota''))])) \<and>
        (case exec [Call_Run, Worker, Worker, Worker, Call_Stop_cancel 0,
                    Client_result (Some (Wrapped ''dial: context canceled'' Canceled))] s0 of
           None \<Rightarrow> False
         | Some s \<Rightarrow>
             (case exec [Worker, Worker] s of
                None \<Rightarrow> False
              | Some s' \<Rightarrow> worker s' = W_Defer_Cancel \<and> logs s' = logs s)) \<and>
        (case exec [Call_Run, Worker, Worker, Worker, Call_Stop_cancel 0,
                    Client_result (Some (New ''quota''))] s0 of
           None \<Rightarrow> False
         | Some s \<Rightarrow>
             (case exec [Worker, Worker] s of
                None \<Rightarrow> False
              | Some s' \<Rightarrow>
                  worker s' = W_Defer_Cancel \<and>
                  logs s' =
                    logs s @ [(ErrorLevel, ''Pub/Sub input worker failed.'', Some (New ''quota''))])))"
proof -
  obtain s0 where s0: "NewInput (Inr cfg1) (Inr ''id'') None 0 = Inr s0"
    by (simp add: NewInput_def)
  note f = NewInput_fields[OF s0]
  have g: "clock s0 = 0" using s0 by (auto simp: NewInput_def Let_def)
  let ?e1 = "New ''quota''"
  let ?e2 = "Wrapped ''dial: context canceled'' Canceled"
  obtain s1 where s1: "exec [Call_Run, Worker, Worker, Worker, Client_result (Some ?e1)] s0 = Some s1"
    and w1: "worker s1 = W_Classify (Some ?e1)" "\<not> panicked s1" "\<not> workerCtx_Err s1"
    using f g
    by (simp add: step_def Run_def worker_step_def workerCtx_Err_def logger_def NewLimiter_def
          reserve_step_def run_begin_def run_client_def run_return_def
          UpdateStatus_def Let_def)
  obtain s2 where s2: "exec [Call_Run, Worker, Worker, Worker, Call_Stop_cancel 0,
                             Client_result (Some ?e2)] s0 = Some s2"
    and w2: "worker s2 = W_Classify (Some ?e2)" "\<not> panicked s2" "workerCtx_Err s2"
    using f g
    by (simp add: step_def Run_def worker_step_def workerCtx_Err_def logger_def NewLimiter_def
          reserve_step_def run_begin_def run_client_def run_return_def
          UpdateStatus_def Stop_cancel_def Let_def)
  obtain s3 where s3: "exec [Call_Run, Worker, Worker, Worker, Call_Stop_cancel 0,
                             Client_result (Some ?e1)] s0 = Some s3"
    and w3: "worker s3 = W_Classify (Some ?e1)" "\<not> panicked s3" "workerCtx_Err s3"
    using f g
    by (simp add: step_def Run_def worker_step_def workerCtx_Err_def logger_def NewLimiter_def
          reserve_step_def run_begin_def run_client_def run_return_def
          UpdateStatus_def Stop_cancel_def Let_def)
  from watchdog_classifies_by_outer_context[OF w1(1,2)]
       watchdog_classifies_by_outer_context[OF w2(1,2)]
       watchdog_classifies_by_outer_context[OF w3(1,2)]
  show ?thesis
    using s0 s1 s2 s3 w1(3) w2(3) w3(3) by (simp add: logger_def)
qed

lemma EventPrivateReporter_bridged:
  "metrics s = Some m \<Longrightarrow> \<not> panicked s \<Longrightarrow> bridged ps s m (EventPrivateReporter ps s)"
proof (induction ps arbitrary: s m)
  case Nil
  then show ?case by (simp add: bridged_def EventPrivateReporter_def)
next
  case (Cons p ps)
  show ?case
  proof (cases p)
    case (Msg msg)
    let ?m1 = "m\<lparr>ackedMessageCount := ackedMessageCount m + 1,
                 bytesProcessedTotal := bytesProcessedTotal m + of_nat (length (Data msg)),
                 processingTime := processingTime m @ [Since (clock s) (PublishTime msg)]\<rparr>"
    let ?s1 = "ack_one p s"
    have s1: "metrics ?s1 = Some ?m1" "\<not> panicked ?s1" "clock ?s1 = clock s"
      "acks ?s1 = acks s @ [(msg, Ack)]" "logs ?s1 = logs s"
      using Cons.prems Msg by (simp_all add: ack_one_def Let_def)
    from Cons.IH[OF s1(1,2)] have "bridged ps ?s1 ?m1 (EventPrivateReporter ps ?s1)" .
    then show ?thesis
      using s1 Msg by (auto simp: bridged_def EventPrivateReporter_def)
  next
    case NotMsg
    let ?m1 = "m\<lparr>failedAckedMessageCount := failedAckedMessageCount m + 1\<rparr>"
    let ?s1 = "ack_one p s"
    have s1: "metrics ?s1 = Some ?m1" "\<not> panicked ?s1" "clock ?s1 = clock s"
      "acks ?s1 = acks s"
      "logs ?s1 = logs s @ [(ErrorLevel, ''Failed ACKing pub/sub event'', None)]"
      using Cons.prems NotMsg by (simp_all add: ack_one_def logger_def Let_def)
    from Cons.IH[OF s1(1,2)] have "bridged ps ?s1 ?m1 (EventPrivateReporter ps ?s1)" .
    then show ?thesis
      using s1 NotMsg
      by (auto simp: bridged_def EventPrivateReporter_def replicate_app_Cons_same)
  qed
qed

text \<open>
  C7. With the metrics in place, the acknowledgement callback acks each reported message
  once, adds one to the acked counter and the length of the payload to the bytes
  processed for each, and records its latency; for each back-reference that is no message
  it adds one to the failed-ack counter and logs an error, and calls neither \<open>Ack\<close> nor
  \<open>Nack\<close>. The rejection of an event by the outlet nacks the message, adds one to the nacked
  counter and leaves the acked counter as it was.
\<close>

theorem acknowledgment_bridge:
  assumes "metrics s = Some m" and "\<not> panicked s"
  shows "bridged privates s m (EventPrivateReporter privates s) \<and>
         bridged [Msg msg] s m (ack_one (Msg msg) s) \<and>
         bridged [NotMsg] s m (ack_one NotMsg s) \<and>
         acks (ack_one NotMsg s) = acks s \<and>
         acks (handler topicID msg False s) = acks s @ [(msg, Nack)] \<and>
         metrics (handler topicID msg False s) =
           Some (m\<lparr>nackedMessageCount := nackedMessageCount m + 1\<rparr>) \<and>
         map_option ackedMessageCount (metrics (handler topicID msg False s)) =
           Some (ackedMessageCount m)"
proof -
  have "bridged [Msg msg] s m (EventPrivateReporter [Msg msg] s)"
    and "bridged [NotMsg] s m (EventPrivateReporter [NotMsg] s)"
    using assms by (rule EventPrivateReporter_bridged)+
  then have "bridged [Msg msg] s m (ack_one (Msg msg) s)" "bridged [NotMsg] s m (ack_one NotMsg s)"
    by (simp_all add: EventPrivateReporter_def)
  moreover have "acks (ack_one NotMsg s) = acks s"
    using assms by (simp add: ack_one_def logger_def)
  moreover have "acks (handler topicID msg False s) = acks s @ [(msg, Nack)]"
    "metrics (handler topicID msg False s) =
       Some (m\<lparr>nackedMessageCount := nackedMessageCount m + 1\<rparr>)"
    using assms by (simp_all add: handler_def logger_def Let_def)
  ultimately show ?thesis
    using EventPrivateReporter_bridged[OF assms, of privates] by simp
qed

theorem acknowledgment_bridge_witness:
  "(case NewInput (Inr cfg1) (Inr ''id'') None 0 of
      Inl _ \<Rightarrow> False
    | Inr s0 \<Rightarrow>
        (case metrics (EventPrivateReporter [Msg msg1, NotMsg, Msg msg1] ((Run s0)\<lparr>clock := 9\<rparr>)) of
           None \<Rightarrow> False
         | Some m' \<Rightarrow>
             ackedMessageCount m' = 2 \<and> bytesProcessedTotal m' = 4 \<and>
             processingTime m' = [4, 4] \<and> failedAckedMessageCount m' = 1 \<and>
             nackedMessageCount m' = 0) \<and>
        acks (EventPrivateReporter [Msg msg1, NotMsg, Msg msg1] ((Run s0)\<lparr>clock := 9\<rparr>)) =
          [(msg1, Ack), (msg1, Ack)])"
proof -
  obtain s0 where s0: "NewInput (Inr cfg1) (Inr ''id'') None 0 = Inr s0"
    by (simp add: NewInput_def)
  note f = NewInput_fields[OF s0]
  let ?s = "(Run s0)\<lparr>clock := 9\<rparr>"
  have m: "metrics ?s = Some (newInputMetrics (input_id s0))" and np: "\<not> panicked ?s"
    and a: "acks ?s = []" and c: "clock ?s = 9"
    using f by (simp_all add: Run_def)
  from acknowledgment_bridge[OF m np, of "[Msg msg1, NotMsg, Msg msg1]"]
  have "bridged [Msg msg1, NotMsg, Msg msg1] ?s (newInputMetrics (input_id s0))
          (EventPrivateReporter [Msg msg1, NotMsg, Msg msg1] ?s)"
    by blast
  then show ?thesis
    using s0 a
    by (auto simp: bridged_def c newInputMetrics_def msg1_def Since_def)
qed

section \<open>The running input: the events delivered\<close>

lemma ack_one_config: "config (ack_one p s) = config s"
  by (auto simp: ack_one_def panic_def logger_def Let_def split: priv.split option.split)

lemma EventPrivateReporter_config: "config (EventPrivateReporter ps s) = config s"
  unfolding EventPrivateReporter_def
  by (induction ps arbitrary: s) (simp_all add: ack_one_config)

lemma topic_inv_step: "topic_inv c s \<Longrightarrow> pred_option (topic_inv c) (step a s)"
  by (cases a; cases "worker s")
     (auto simp: topic_inv_def other_defs worker_defs EventPrivateReporter_frame
        EventPrivateReporter_config Let_def
        split: gpc.split option.split sum.split bool.split prod.split)

lemma topic_inv_exec: "topic_inv c s \<Longrightarrow> pred_option (topic_inv c) (exec sched s)"
proof (induction sched arbitrary: s)
  case Nil
  then show ?case by simp
next
  case (Cons a as)
  from topic_inv_step[OF Cons.prems, of a] show ?case
    by (cases "step a s") (simp_all add: Cons.IH)
qed

text \<open>
  In the running input, the event that the callback hands to the outlet for a message
  carries the identifier made from the configured project and topic and the message.
\<close>

lemma delivered_event_identifier:
  assumes "NewInput (Inr c) cid connected t = Inr s0" and "exec sched s0 = Some s"
    and "step (Handler msg True) s = Some s'"
  shows "\<exists>e. outlet s' = outlet s @ [e] \<and>
             EventID e = makeTopicID (ProjectID c) (Topic c) @ ''-'' @ ID msg \<and>
             Private e = Msg msg"
proof -
  from assms(1) have "topic_inv c s0"
    by (auto simp: NewInput_def topic_inv_def Let_def split: sum.splits option.splits)
  from topic_inv_exec[OF this, of sched] assms(2) have ti: "topic_inv c s" by simp
  from assms(3) obtain sub tid where w: "worker s = W_Receive sub tid"
    and s': "s' = handler tid msg True s"
    by (auto simp: step_def split: if_splits wpc.splits)
  from ti w have "tid = makeTopicID (ProjectID c) (Topic c)" by (simp add: topic_inv_def)
  then show ?thesis
    by (simp add: s' handler_def makeEvent_def SetID_def Let_def)
qed

text \<open>
  A run of the input: the subscription exists, the message \<open>msg1\<close> with the attribute
  \<open>k = v\<close> arrives, the outlet accepts its event, and the pipeline acknowledges it.
\<close>

lemma accepted_message_scenario:
  "(case NewInput (Inr cfg1) (Inr ''id'') None 0 of
      Inl _ \<Rightarrow> False
    | Inr s0 \<Rightarrow>
        (case exec [Call_Run, Worker, Worker, Worker, Client_result None,
                    Subscribe \<lparr>Exists = Inr True, CreateSubscription = None\<rparr>, Tick 7,
                    Handler msg1 True, Tick 2, ACK [Msg msg1]] s0 of
           None \<Rightarrow> False
         | Some s \<Rightarrow>
             map (\<lambda>e. fmlookup (Fields e) ''labels'') (outlet s) =
               [Some (Labels (fmap_of_list [(''k'', ''v'')]))] \<and>
             map EventID (outlet s) = [makeTopicID ''p'' ''t'' @ ''-m1''] \<and>
             acks s = [(msg1, Ack)] \<and>
             map_option ackedMessageCount (metrics s) = Some 1 \<and>
             map_option bytesProcessedTotal (metrics s) = Some 2 \<and>
             map_option processingTime (metrics s) = Some [4] \<and>
             map fst (status s) = [Starting, Configuring, Running]))"
  by (simp add: NewInput_def cfg1_def msg1_def step_def Run_def worker_step_def
      workerCtx_Err_def logger_def NewLimiter_def reserve_step_def run_begin_def
      run_client_def UpdateStatus_def run_subscribe_def getOrCreateSubscription_def tick_def
      handler_def makeEvent_def SetID_def EventPrivateReporter_def ack_one_def
      newInputMetrics_def Since_def Let_def)


end
